theory Spec2Isabelle
  imports Main
begin

section \<open>Shared vocabulary\<close>

text \<open>
  Instants (\<open>Date\<close> objects, \<open>Date.now()\<close>) are milliseconds since the epoch.
  Every method that reads the clock takes the instant as its first argument \<open>now\<close>;
  a method that calls \<open>new Date()\<close> several times reads the same instant each time.
  A method of a mutable object returns the error it throws (if any) together with the
  object as the call leaves it, so that a write made before a throw stays visible.
\<close>

type_synonym Date = int

datatype VehicleState =
  PARKING | PARKED | WAITING_MARKOUT | SCHEDULED | RETRIEVAL_ASSIGNED
  | ON_THE_WAY | DELIVERED | CLOSED

datatype ValetStatus = FREE | BUSY | BREAK | OFF_DUTY

datatype error =
    InvalidStateTransition VehicleState VehicleState
  | CannotMarkParked VehicleState
  | CannotRequestMarkOut VehicleState
  | InvalidMarkOutTime
  | CannotAssignRetrievalValet VehicleState
  | CannotStartRetrieval VehicleState
  | RetrievalTimeNotReached
  | CannotMarkDelivered VehicleState
  | CannotClose VehicleState
  | ValetCannotBeAssigned string ValetStatus
  | CannotCompleteTask ValetStatus
  | CannotTakeBreakWhileBusy
  | ValetNotOnBreak ValetStatus
  | CannotGoOffDutyWhileBusy
  | ValetNotOffDuty ValetStatus
  | NoActiveValets
  | NoAvailableValets nat nat nat nat nat
  | RecordNotFound
  | NoSlotsAvailable
  | AllSlotsAlreadyFree
  | VehicleNumberRequired
  | CustomerPhoneRequired
  | InvalidPhoneNumber
  | EntryOperatorRequired
  | DuplicateEntry string string VehicleState
  | NoParkingSlotsAvailable
  | UniqueConstraintFailed

section \<open>VehicleState.ts: the transition table\<close>

fun transitions :: "VehicleState \<Rightarrow> VehicleState list" where
  "transitions PARKING = [PARKED]"
| "transitions PARKED = [SCHEDULED, WAITING_MARKOUT]"
| "transitions WAITING_MARKOUT = [SCHEDULED]"
| "transitions SCHEDULED = [RETRIEVAL_ASSIGNED]"
| "transitions RETRIEVAL_ASSIGNED = [ON_THE_WAY]"
| "transitions ON_THE_WAY = [DELIVERED]"
| "transitions DELIVERED = [CLOSED]"
| "transitions CLOSED = []"

definition transition :: "VehicleState \<Rightarrow> VehicleState \<Rightarrow> error + VehicleState" where
  "transition currentState nextState =
     (if nextState \<notin> set (transitions currentState)
      then Inl (InvalidStateTransition currentState nextState)
      else Inr nextState)"

definition canBeMarkedOut :: "VehicleState \<Rightarrow> bool" where
  "canBeMarkedOut s \<longleftrightarrow> s \<in> set [PARKED, WAITING_MARKOUT]"

definition isReadyForRetrieval :: "VehicleState \<Rightarrow> bool" where
  "isReadyForRetrieval s \<longleftrightarrow> s \<in> set [SCHEDULED, RETRIEVAL_ASSIGNED]"

section \<open>Vehicle.ts: the vehicle entity\<close>

record Vehicle =
  vehicleId :: string
  token :: string
  vehicleNumber :: string
  customerPhone :: string
  zone :: string
  slot :: string
  state :: VehicleState
  customerType :: "string option"
  arrivedAt :: Date
  parkedAt :: "Date option"
  markoutRequestedAt :: "Date option"
  scheduledAt :: "Date option"
  retrievalStartedAt :: "Date option"
  deliveredAt :: "Date option"
  closedAt :: "Date option"
  entryOperatorId :: "string option"
  parkingValetId :: "string option"
  retrievalValetId :: "string option"
  createdAt :: Date
  updatedAt :: Date

text \<open>
  An optional field is \<open>None\<close> when it is \<open>undefined\<close>; the model does not tell
  \<open>null\<close> from \<open>undefined\<close>.
\<close>

definition canBeMarkedParked :: "Vehicle \<Rightarrow> bool" where
  "canBeMarkedParked v \<longleftrightarrow> state v = PARKING \<and> parkingValetId v \<noteq> None"

definition markAsParked :: "Date \<Rightarrow> Vehicle \<Rightarrow> error option \<times> Vehicle" where
  "markAsParked now v =
     (if \<not> canBeMarkedParked v then (Some (CannotMarkParked (state v)), v)
      else case transition (state v) PARKED of
             Inl e \<Rightarrow> (Some e, v)
           | Inr s \<Rightarrow> (None, v\<lparr>state := s, parkedAt := Some now, updatedAt := now\<rparr>))"

definition canRequestMarkOut :: "Vehicle \<Rightarrow> bool" where
  "canRequestMarkOut v = canBeMarkedOut (state v)"

definition requestMarkOut :: "Date \<Rightarrow> int \<Rightarrow> Vehicle \<Rightarrow> error option \<times> Vehicle" where
  "requestMarkOut now selectedMinutes v =
     (if \<not> canRequestMarkOut v then (Some (CannotRequestMarkOut (state v)), v)
      else if selectedMinutes \<notin> set [5, 7, 10] then (Some InvalidMarkOutTime, v)
      else case transition (state v) SCHEDULED of
             Inl e \<Rightarrow> (Some e, v)
           | Inr s \<Rightarrow>
               (None, v\<lparr>state := s, markoutRequestedAt := Some now,
                         scheduledAt := Some (now + selectedMinutes * 60 * 1000),
                         updatedAt := now\<rparr>))"

text \<open>
  \<open>assignRetrievalValet\<close> stores the valet id first and asks the transition table
  afterwards, so the store of the id is made on the object that the throw leaves behind.
\<close>

definition assignRetrievalValet :: "Date \<Rightarrow> string \<Rightarrow> Vehicle \<Rightarrow> error option \<times> Vehicle" where
  "assignRetrievalValet now valetId v =
     (if \<not> isReadyForRetrieval (state v) then (Some (CannotAssignRetrievalValet (state v)), v)
      else let v1 = v\<lparr>retrievalValetId := Some valetId\<rparr>
           in case transition (state v1) RETRIEVAL_ASSIGNED of
                Inl e \<Rightarrow> (Some e, v1)
              | Inr s \<Rightarrow> (None, v1\<lparr>state := s, updatedAt := now\<rparr>))"

definition isRetrievalTimeReached :: "Date \<Rightarrow> Vehicle \<Rightarrow> bool" where
  "isRetrievalTimeReached now v =
     (case scheduledAt v of None \<Rightarrow> False | Some t \<Rightarrow> now \<ge> t)"

definition startRetrieval :: "Date \<Rightarrow> Vehicle \<Rightarrow> error option \<times> Vehicle" where
  "startRetrieval now v =
     (if \<not> isReadyForRetrieval (state v) then (Some (CannotStartRetrieval (state v)), v)
      else if \<not> isRetrievalTimeReached now v then (Some RetrievalTimeNotReached, v)
      else case transition (state v) ON_THE_WAY of
             Inl e \<Rightarrow> (Some e, v)
           | Inr s \<Rightarrow> (None, v\<lparr>state := s, retrievalStartedAt := Some now, updatedAt := now\<rparr>))"

definition markAsDelivered :: "Date \<Rightarrow> Vehicle \<Rightarrow> error option \<times> Vehicle" where
  "markAsDelivered now v =
     (if state v \<noteq> ON_THE_WAY then (Some (CannotMarkDelivered (state v)), v)
      else case transition (state v) DELIVERED of
             Inl e \<Rightarrow> (Some e, v)
           | Inr s \<Rightarrow> (None, v\<lparr>state := s, deliveredAt := Some now, updatedAt := now\<rparr>))"

definition close :: "Date \<Rightarrow> Vehicle \<Rightarrow> error option \<times> Vehicle" where
  "close now v =
     (if state v \<noteq> DELIVERED then (Some (CannotClose (state v)), v)
      else case transition (state v) CLOSED of
             Inl e \<Rightarrow> (Some e, v)
           | Inr s \<Rightarrow> (None, v\<lparr>state := s, closedAt := Some now, updatedAt := now\<rparr>))"

text \<open>A vehicle waiting for its scheduled retrieval, used at the concrete evaluations.\<close>

definition scheduledVehicle :: Vehicle where
  "scheduledVehicle =
     \<lparr> vehicleId = ''veh-1'', token = ''VLT-12345678'', vehicleNumber = ''KL07AB1234'',
       customerPhone = ''9876543210'', zone = ''A'', slot = ''18'', state = SCHEDULED,
       customerType = None, arrivedAt = 0, parkedAt = Some 60000,
       markoutRequestedAt = Some 120000, scheduledAt = Some 420000,
       retrievalStartedAt = None, deliveredAt = None, closedAt = None,
       entryOperatorId = Some ''op-1'', parkingValetId = Some ''valet-1'',
       retrievalValetId = None, createdAt = 0, updatedAt = 120000 \<rparr>"

definition assignedVehicle :: Vehicle where
  "assignedVehicle =
     scheduledVehicle\<lparr>state := RETRIEVAL_ASSIGNED, retrievalValetId := Some ''valet-1''\<rparr>"

section \<open>ValetStatus.ts and the valet entity\<close>

definition statusCanBeAssigned :: "ValetStatus \<Rightarrow> bool" where
  "statusCanBeAssigned st \<longleftrightarrow> st = FREE"

definition getStatusAfterAssignment :: ValetStatus where
  "getStatusAfterAssignment = BUSY"

definition getStatusAfterCompletion :: ValetStatus where
  "getStatusAfterCompletion = FREE"

record Valet =
  valetId :: string
  name :: string
  phone :: string
  status :: ValetStatus
  assignmentSequence :: int
  todayCount :: int
  totalCount :: int
  employeeId :: "string option"
  shiftStart :: "Date option"
  shiftEnd :: "Date option"
  isActive :: bool
  valetCreatedAt :: Date
  valetUpdatedAt :: Date

text \<open>
  \<open>getHours() * 60 + getMinutes()\<close> of an instant, with the process's time zone
  taken to be UTC.
\<close>

definition minutesSinceMidnight :: "Date \<Rightarrow> int" where
  "minutesSinceMidnight d = (d div 60000) mod 1440"

definition isInShift :: "Date \<Rightarrow> Valet \<Rightarrow> bool" where
  "isInShift now v =
     (case (shiftStart v, shiftEnd v) of
        (Some s, Some e) \<Rightarrow>
          (let currentTime = minutesSinceMidnight now;
               shiftStartMinutes = minutesSinceMidnight s;
               shiftEndMinutes = minutesSinceMidnight e
           in if shiftEndMinutes < shiftStartMinutes
              then currentTime \<ge> shiftStartMinutes \<or> currentTime \<le> shiftEndMinutes
              else currentTime \<ge> shiftStartMinutes \<and> currentTime \<le> shiftEndMinutes)
      | _ \<Rightarrow> True)"

definition canBeAssigned :: "Date \<Rightarrow> Valet \<Rightarrow> bool" where
  "canBeAssigned now v \<longleftrightarrow> isActive v \<and> statusCanBeAssigned (status v) \<and> isInShift now v"

definition assignTask :: "Date \<Rightarrow> Valet \<Rightarrow> error option \<times> Valet" where
  "assignTask now v =
     (if \<not> canBeAssigned now v then (Some (ValetCannotBeAssigned (name v) (status v)), v)
      else (None, v\<lparr>status := getStatusAfterAssignment,
                      assignmentSequence := assignmentSequence v + 1,
                      todayCount := todayCount v + 1,
                      totalCount := totalCount v + 1,
                      valetUpdatedAt := now\<rparr>))"

definition completeTask :: "Date \<Rightarrow> Valet \<Rightarrow> error option \<times> Valet" where
  "completeTask now v =
     (if status v \<noteq> BUSY then (Some (CannotCompleteTask (status v)), v)
      else (None, v\<lparr>status := getStatusAfterCompletion, valetUpdatedAt := now\<rparr>))"

definition takeBreak :: "Date \<Rightarrow> Valet \<Rightarrow> error option \<times> Valet" where
  "takeBreak now v =
     (if status v = BUSY then (Some CannotTakeBreakWhileBusy, v)
      else (None, v\<lparr>status := BREAK, valetUpdatedAt := now\<rparr>))"

definition returnFromBreak :: "Date \<Rightarrow> Valet \<Rightarrow> error option \<times> Valet" where
  "returnFromBreak now v =
     (if status v \<noteq> BREAK then (Some (ValetNotOnBreak (status v)), v)
      else (None, v\<lparr>status := FREE, valetUpdatedAt := now\<rparr>))"

definition goOffDuty :: "Date \<Rightarrow> Valet \<Rightarrow> error option \<times> Valet" where
  "goOffDuty now v =
     (if status v = BUSY then (Some CannotGoOffDutyWhileBusy, v)
      else (None, v\<lparr>status := OFF_DUTY, valetUpdatedAt := now\<rparr>))"

definition startDuty :: "Date \<Rightarrow> Valet \<Rightarrow> error option \<times> Valet" where
  "startDuty now v =
     (if status v \<noteq> OFF_DUTY then (Some (ValetNotOffDuty (status v)), v)
      else (None, v\<lparr>status := FREE, valetUpdatedAt := now\<rparr>))"

definition resetDailyCounters :: "Date \<Rightarrow> Valet \<Rightarrow> error option \<times> Valet" where
  "resetDailyCounters now v =
     (None, v\<lparr>assignmentSequence := 0, todayCount := 0, valetUpdatedAt := now\<rparr>)"

section \<open>ValetRepository.ts: the valets table\<close>

text \<open>
  The table is the list of its rows; \<open>valetId\<close> is the primary key. \<open>findActive\<close>
  orders by \<open>assignment_sequence\<close>; rows with equal keys keep their table order.
  \<open>update\<close> writes the status and the three counters of the row with the given id
  and fails when there is no such row.
\<close>

type_synonym ValetTable = "Valet list"

definition findActive :: "ValetTable \<Rightarrow> Valet list" where
  "findActive tbl = sort_key assignmentSequence (filter isActive tbl)"

definition findById :: "string \<Rightarrow> ValetTable \<Rightarrow> Valet option" where
  "findById i tbl = find (\<lambda>r. valetId r = i) tbl"

definition writeValet :: "Date \<Rightarrow> Valet \<Rightarrow> Valet \<Rightarrow> Valet" where
  "writeValet now v r =
     r\<lparr>status := status v, assignmentSequence := assignmentSequence v,
       todayCount := todayCount v, totalCount := totalCount v, valetUpdatedAt := now\<rparr>"

definition update :: "Date \<Rightarrow> Valet \<Rightarrow> ValetTable \<Rightarrow> error + ValetTable" where
  "update now v tbl =
     (if findById (valetId v) tbl = None then Inl RecordNotFound
      else Inr (map (\<lambda>r. if valetId r = valetId v then writeValet now v r else r) tbl))"

section \<open>AssignValetRoundRobin.ts: the round-robin dispatcher\<close>

datatype AssignmentType = ParkingTask | RetrievalTask

definition createNoAvailableValetsError :: "Date \<Rightarrow> Valet list \<Rightarrow> error" where
  "createNoAvailableValetsError now allValets =
     NoAvailableValets
       (length (filter (\<lambda>v. status v = FREE) allValets))
       (length (filter (\<lambda>v. status v = BUSY) allValets))
       (length (filter (\<lambda>v. status v = BREAK) allValets))
       (length (filter (\<lambda>v. status v = OFF_DUTY) allValets))
       (length (filter (\<lambda>v. \<not> isInShift now v) allValets))"

text \<open>
  The two \<open>sort\<close> calls are stable sorts on an integer key. Both \<open>[0]\<close> reads are
  made on lists that the guards before them make non-empty. The assignment type is only
  logged. The result is the outcome together with the table as the call leaves it.
\<close>

definition selectValet :: "Valet list \<Rightarrow> Valet" where
  "selectValet availableValets =
     (let sorted = sort_key assignmentSequence availableValets;
          lowestSequence = assignmentSequence (hd sorted);
          candidateValets = filter (\<lambda>v. assignmentSequence v = lowestSequence) sorted;
          candidateValets' =
            (if length candidateValets > 1 then sort_key todayCount candidateValets
             else candidateValets)
      in hd candidateValets')"

definition execute :: "Date \<Rightarrow> AssignmentType \<Rightarrow> ValetTable \<Rightarrow> (error + Valet) \<times> ValetTable" where
  "execute now assignmentType tbl =
     (let allValets = findActive tbl in
      if length allValets = 0 then (Inl NoActiveValets, tbl)
      else
        let availableValets = filter (canBeAssigned now) allValets in
        if length availableValets = 0
        then (Inl (createNoAvailableValetsError now allValets), tbl)
        else
          case assignTask now (selectValet availableValets) of
            (Some e, _) \<Rightarrow> (Inl e, tbl)
          | (None, selectedValet) \<Rightarrow>
              (case update now selectedValet tbl of
                 Inl e \<Rightarrow> (Inl e, tbl)
               | Inr tbl' \<Rightarrow> (Inr selectedValet, tbl')))"

text \<open>
  Releasing a valet, as \<open>MarkVehicleParkedUseCase\<close> does it: read the row, complete
  the task on the object, write it back.
\<close>

definition releaseValet :: "Date \<Rightarrow> string \<Rightarrow> ValetTable \<Rightarrow> error option \<times> ValetTable" where
  "releaseValet now i tbl =
     (case findById i tbl of
        None \<Rightarrow> (Some RecordNotFound, tbl)
      | Some valet \<Rightarrow>
          (case completeTask now valet of
             (Some e, _) \<Rightarrow> (Some e, tbl)
           | (None, valet') \<Rightarrow>
               (case update now valet' tbl of
                  Inl e \<Rightarrow> (Some e, tbl)
                | Inr tbl' \<Rightarrow> (None, tbl'))))"

text \<open>
  \<open>K\<close> sequential rounds, one per instant of the list: assign a valet, then release
  that valet before the next round. The first failure stops the run.
\<close>

fun assignRounds :: "Date list \<Rightarrow> ValetTable \<Rightarrow> error + ValetTable" where
  "assignRounds [] tbl = Inr tbl"
| "assignRounds (now # nows) tbl =
     (case execute now ParkingTask tbl of
        (Inl e, _) \<Rightarrow> Inl e
      | (Inr valet, tbl1) \<Rightarrow>
          (case releaseValet now (valetId valet) tbl1 of
             (Some e, _) \<Rightarrow> Inl e
           | (None, tbl2) \<Rightarrow> assignRounds nows tbl2))"

text \<open>The row of a selected valet after the assignment has been written.\<close>

definition assigned :: "Date \<Rightarrow> Valet \<Rightarrow> Valet" where
  "assigned now v =
     v\<lparr>status := BUSY, assignmentSequence := assignmentSequence v + 1,
       todayCount := todayCount v + 1, totalCount := totalCount v + 1,
       valetUpdatedAt := now\<rparr>"

text \<open>The same row once the valet has been released again.\<close>

definition released :: "Date \<Rightarrow> Valet \<Rightarrow> Valet" where
  "released now v = (assigned now v)\<lparr>status := FREE\<rparr>"

definition mkValet :: "string \<Rightarrow> ValetStatus \<Rightarrow> int \<Rightarrow> int \<Rightarrow> Valet" where
  "mkValet i st sq td =
     \<lparr> valetId = i, name = i, phone = ''9876500001'', status = st,
       assignmentSequence = sq, todayCount = td, totalCount = td,
       employeeId = None, shiftStart = None, shiftEnd = None, isActive = True,
       valetCreatedAt = 0, valetUpdatedAt = 0 \<rparr>"

section \<open>ParkingZone.ts: the zone entity\<close>

record ParkingZone =
  zoneId :: string
  zoneCode :: string
  totalSlots :: int
  availableSlots :: int
  zoneIsActive :: bool
  zoneCreatedAt :: "Date option"
  zoneUpdatedAt :: "Date option"
  zoneName :: "string option"
  zoneDescription :: "string option"
  priority :: int

definition hasAvailability :: "ParkingZone \<Rightarrow> bool" where
  "hasAvailability z \<longleftrightarrow> availableSlots z > 0 \<and> zoneIsActive z"

definition occupySlot :: "ParkingZone \<Rightarrow> error option \<times> ParkingZone" where
  "occupySlot z =
     (if availableSlots z \<le> 0 then (Some NoSlotsAvailable, z)
      else (None, z\<lparr>availableSlots := availableSlots z - 1\<rparr>))"

definition releaseSlot :: "ParkingZone \<Rightarrow> error option \<times> ParkingZone" where
  "releaseSlot z =
     (if availableSlots z \<ge> totalSlots z then (Some AllSlotsAlreadyFree, z)
      else (None, z\<lparr>availableSlots := availableSlots z + 1\<rparr>))"

text \<open>
  A sequence of calls on one zone object: a call that throws leaves the object to the
  next call as it is.
\<close>

datatype SlotOp = Occupy | Release

fun applySlotOp :: "SlotOp \<Rightarrow> ParkingZone \<Rightarrow> error option \<times> ParkingZone" where
  "applySlotOp Occupy z = occupySlot z"
| "applySlotOp Release z = releaseSlot z"

fun runSlotOps :: "SlotOp list \<Rightarrow> ParkingZone \<Rightarrow> ParkingZone" where
  "runSlotOps [] z = z"
| "runSlotOps (opn # ops) z = runSlotOps ops (snd (applySlotOp opn z))"

section \<open>ParkingZoneRepository.ts: the parking_zones table\<close>

text \<open>
  The table is the list of its rows, \<open>zoneId\<close> the primary key. \<open>findAvailableZone\<close>
  takes the first row in ascending priority among the active rows with a free slot; rows
  of equal priority keep their table order. The two counter updates are unconditional
  and fail only when no row has the id.
\<close>

type_synonym ZoneTable = "ParkingZone list"

definition findAvailableZone :: "ZoneTable \<Rightarrow> ParkingZone option" where
  "findAvailableZone tbl =
     (case sort_key priority (filter (\<lambda>z. availableSlots z > 0 \<and> zoneIsActive z) tbl) of
        [] \<Rightarrow> None
      | z # _ \<Rightarrow> Some z)"

definition decrementAvailableSlots :: "string \<Rightarrow> ZoneTable \<Rightarrow> error + ZoneTable" where
  "decrementAvailableSlots i tbl =
     (if find (\<lambda>z. zoneId z = i) tbl = None then Inl RecordNotFound
      else Inr (map (\<lambda>z. if zoneId z = i then z\<lparr>availableSlots := availableSlots z - 1\<rparr> else z) tbl))"

definition incrementAvailableSlots :: "string \<Rightarrow> ZoneTable \<Rightarrow> error + ZoneTable" where
  "incrementAvailableSlots i tbl =
     (if find (\<lambda>z. zoneId z = i) tbl = None then Inl RecordNotFound
      else Inr (map (\<lambda>z. if zoneId z = i then z\<lparr>availableSlots := availableSlots z + 1\<rparr> else z) tbl))"

definition mkZone :: "string \<Rightarrow> string \<Rightarrow> int \<Rightarrow> int \<Rightarrow> ParkingZone" where
  "mkZone i code n avail =
     \<lparr> zoneId = i, zoneCode = code, totalSlots = n, availableSlots = avail,
       zoneIsActive = True, zoneCreatedAt = Some 0, zoneUpdatedAt = None,
       zoneName = None, zoneDescription = None, priority = 1 \<rparr>"

section \<open>Strings\<close>

text \<open>
  Strings are taken over ASCII, where the regular-expression classes \<open>\s\<close> and
  \<open>\d\<close>, \<open>trim\<close> and \<open>toUpperCase\<close> are as below.
\<close>

definition isSpace :: "char \<Rightarrow> bool" where
  "isSpace c \<longleftrightarrow> (of_char c :: nat) \<in> set [9, 10, 11, 12, 13, 32]"

definition isDigit :: "char \<Rightarrow> bool" where
  "isDigit c \<longleftrightarrow> c \<in> set ''0123456789''"

definition trim :: "string \<Rightarrow> string" where
  "trim s = rev (dropWhile isSpace (rev (dropWhile isSpace s)))"

definition toUpperChar :: "char \<Rightarrow> char" where
  "toUpperChar c =
     (case map_of (zip ''abcdefghijklmnopqrstuvwxyz'' ''ABCDEFGHIJKLMNOPQRSTUVWXYZ'') c of
        Some u \<Rightarrow> u
      | None \<Rightarrow> c)"

definition toUpperCase :: "string \<Rightarrow> string" where
  "toUpperCase s = map toUpperChar s"

text \<open>
  Decimal notation of a number (\<open>toString\<close>), and \<open>padStart(3, '0')\<close>.
  \<open>digitChar\<close> is only applied to numbers below 10.
\<close>

definition digitChar :: "nat \<Rightarrow> char" where
  "digitChar d = ''0123456789'' ! d"

fun digitsOf :: "nat \<Rightarrow> string" where
  "digitsOf n = (if n < 10 then [digitChar n] else digitsOf (n div 10) @ [digitChar (n mod 10)])"

declare digitsOf.simps [simp del]

definition toStringInt :: "int \<Rightarrow> string" where
  "toStringInt i = (if i < 0 then CHR ''-'' # digitsOf (nat (- i)) else digitsOf (nat i))"

definition padStart3 :: "string \<Rightarrow> string" where
  "padStart3 s = replicate (3 - length s) CHR ''0'' @ s"

text \<open>\<open>slice(-6)\<close>: the last six characters, or the whole string when it is shorter.\<close>

definition sliceLast6 :: "string \<Rightarrow> string" where
  "sliceLast6 s = drop (length s - 6) s"

section \<open>CreateVehicleEntry: the entry use case\<close>

record CreateVehicleEntryDTO =
  dtoVehicleNumber :: string
  dtoCustomerPhone :: string
  dtoCustomerType :: "string option"
  dtoEntryOperatorId :: string

record VehicleEntryResponse =
  respVehicle :: Vehicle
  respToken :: string
  respZone :: string
  respSlot :: string
  respAssignedValet :: "string \<times> string"

text \<open>
  What one call reads from outside the program: the clock, the two random draws
  \<open>Math.floor(Math.random() * 1000)\<close> (between 0 and 999) and
  \<open>Math.floor(Math.random() * 100)\<close> (between 0 and 99), the UUID given to the
  in-memory entity, and the id the database gives the new row.
\<close>

record Env =
  clock :: Date
  tokenRandom :: nat
  slotRandom :: nat
  uuid :: string
  rowId :: string

record Store =
  vehicles :: "Vehicle list"
  valets :: ValetTable
  zones :: ZoneTable

text \<open>
  The phone pattern \<open>/^[6-9]\d{9}$/\<close> is tested on the digits of the phone as
  given: the country code is removed by \<open>normalizePhoneNumber\<close> only, later.
\<close>

definition phoneRegex :: "string \<Rightarrow> bool" where
  "phoneRegex s \<longleftrightarrow>
     length s = 10 \<and> (case s of [] \<Rightarrow> False | c # _ \<Rightarrow> c \<in> set ''6789'') \<and> list_all isDigit s"

definition validateInput :: "CreateVehicleEntryDTO \<Rightarrow> error option" where
  "validateInput dto =
     (if dtoVehicleNumber dto = [] \<or> length (trim (dtoVehicleNumber dto)) = 0
      then Some VehicleNumberRequired
      else if dtoCustomerPhone dto = [] \<or> length (trim (dtoCustomerPhone dto)) = 0
      then Some CustomerPhoneRequired
      else let cleanPhone = filter isDigit (dtoCustomerPhone dto) in
        if \<not> phoneRegex cleanPhone then Some InvalidPhoneNumber
        else if dtoEntryOperatorId dto = [] then Some EntryOperatorRequired
        else None)"

definition normalizeVehicleNumber :: "string \<Rightarrow> string" where
  "normalizeVehicleNumber plate =
     trim (toUpperCase (filter (\<lambda>c. \<not> isSpace c) plate))"

definition normalizePhoneNumber :: "string \<Rightarrow> string" where
  "normalizePhoneNumber ph =
     (let cleaned = filter isDigit ph
      in if take 2 cleaned = ''91'' \<and> length cleaned = 12 then drop 2 cleaned else cleaned)"

definition findActiveByVehicleNumber :: "string \<Rightarrow> Vehicle list \<Rightarrow> Vehicle option" where
  "findActiveByVehicleNumber n tbl =
     find (\<lambda>v. vehicleNumber v = n \<and> state v \<notin> set [DELIVERED, CLOSED]) tbl"

definition checkDuplicateEntry :: "string \<Rightarrow> Vehicle list \<Rightarrow> error option" where
  "checkDuplicateEntry plate tbl =
     (let normalizedNumber = normalizeVehicleNumber plate
      in case findActiveByVehicleNumber normalizedNumber tbl of
           Some existingVehicle \<Rightarrow>
             Some (DuplicateEntry normalizedNumber (token existingVehicle) (state existingVehicle))
         | None \<Rightarrow> None)"

definition generateToken :: "Date \<Rightarrow> nat \<Rightarrow> string" where
  "generateToken now r =
     (let timestamp = sliceLast6 (toStringInt now);
          random = padStart3 (digitsOf r)
      in take 12 (''VLT-'' @ timestamp @ random))"

definition allocateSlot :: "string \<Rightarrow> nat \<Rightarrow> string" where
  "allocateSlot code r = (let slotNumber = r + 1 in digitsOf slotNumber)"

text \<open>
  Modelled from the spec: the Prisma schema is not among the sources. The spec makes the
  store reject a token that is already taken (\<open>findByToken\<close> looks the token up as a
  unique key). \<open>create\<close> writes the token, the plate, the phone, the zone, the slot,
  the state and the parking valet, and returns the row as \<open>toDomain\<close> reads it back:
  the id is the database's, the creation time stands for \<open>arrivedAt\<close>, and the columns
  it did not write are empty.
\<close>

definition createVehicle :: "Env \<Rightarrow> Vehicle \<Rightarrow> Vehicle list \<Rightarrow> error + Vehicle \<times> Vehicle list" where
  "createVehicle env data tbl =
     (if token data \<in> set (map token tbl) then Inl UniqueConstraintFailed
      else
        let row = \<lparr> vehicleId = rowId env, token = token data,
                    vehicleNumber = vehicleNumber data, customerPhone = customerPhone data,
                    zone = zone data, slot = slot data, state = state data,
                    customerType = None, arrivedAt = clock env, parkedAt = None,
                    markoutRequestedAt = None, scheduledAt = None, retrievalStartedAt = None,
                    deliveredAt = None, closedAt = None, entryOperatorId = None,
                    parkingValetId = parkingValetId data, retrievalValetId = None,
                    createdAt = clock env, updatedAt = clock env \<rparr>
        in Inr (row, tbl @ [row]))"

text \<open>
  \<open>execute\<close> of the use case, renamed: the dispatcher's \<open>execute\<close> has the name.
  The result is the outcome and the store as the call leaves it; a throw after the valet
  was assigned leaves the valet assigned. The WhatsApp message and the transition log
  write nothing to the store, and a failed message is caught.
\<close>

definition createEntry :: "Env \<Rightarrow> CreateVehicleEntryDTO \<Rightarrow> Store \<Rightarrow> (error + VehicleEntryResponse) \<times> Store" where
  "createEntry env dto st =
     (case validateInput dto of
        Some e \<Rightarrow> (Inl e, st)
      | None \<Rightarrow>
     (case checkDuplicateEntry (dtoVehicleNumber dto) (vehicles st) of
        Some e \<Rightarrow> (Inl e, st)
      | None \<Rightarrow>
     (case findAvailableZone (zones st) of
        None \<Rightarrow> (Inl NoParkingSlotsAvailable, st)
      | Some zn \<Rightarrow>
     (case execute (clock env) ParkingTask (valets st) of
        (Inl e, _) \<Rightarrow> (Inl e, st)
      | (Inr valet, valets') \<Rightarrow>
          let st1 = st\<lparr>valets := valets'\<rparr>;
              tok = generateToken (clock env) (tokenRandom env);
              slt = allocateSlot (zoneCode zn) (slotRandom env);
              vehicle =
                \<lparr> vehicleId = uuid env, token = tok,
                  vehicleNumber = normalizeVehicleNumber (dtoVehicleNumber dto),
                  customerPhone = normalizePhoneNumber (dtoCustomerPhone dto),
                  zone = zoneCode zn, slot = slt, state = PARKING,
                  customerType = dtoCustomerType dto, arrivedAt = clock env, parkedAt = None,
                  markoutRequestedAt = None, scheduledAt = None, retrievalStartedAt = None,
                  deliveredAt = None, closedAt = None,
                  entryOperatorId = Some (dtoEntryOperatorId dto),
                  parkingValetId = Some (valetId valet), retrievalValetId = None,
                  createdAt = clock env, updatedAt = clock env \<rparr>
          in (case createVehicle env vehicle (vehicles st1) of
                Inl e \<Rightarrow> (Inl e, st1)
              | Inr (savedVehicle, vehicles') \<Rightarrow>
                  let st2 = st1\<lparr>vehicles := vehicles'\<rparr>
                  in (case decrementAvailableSlots (zoneId zn) (zones st2) of
                        Inl e \<Rightarrow> (Inl e, st2)
                      | Inr zones' \<Rightarrow>
                          (Inr \<lparr> respVehicle = savedVehicle, respToken = tok,
                                 respZone = zoneCode zn, respSlot = slt,
                                 respAssignedValet = (valetId valet, name valet) \<rparr>,
                           st2\<lparr>zones := zones'\<rparr>)))))))"

text \<open>
  A table for the concrete evaluations: two free valets tie on the lowest sequence and
  differ in today's count, one is free with a higher sequence, one is busy.
\<close>

definition demoValets :: ValetTable where
  "demoValets =
     [mkValet ''v1'' FREE 2 2, mkValet ''v2'' FREE 1 3, mkValet ''v3'' FREE 1 1,
      mkValet ''v4'' BUSY 0 0]"

definition freshValets :: ValetTable where
  "freshValets = [mkValet ''a'' FREE 0 0, mkValet ''b'' FREE 0 0, mkValet ''c'' FREE 0 0]"

text \<open>
  Stores, calls and requests for the concrete evaluations: an empty car park with one
  zone of two slots and three free valets; a car park whose only record of plate
  KL07AB1234 is CLOSED, once with a full zone and once with a free slot.
\<close>

definition demoStore :: Store where
  "demoStore = \<lparr> vehicles = [], valets = freshValets, zones = [mkZone ''z1'' ''A'' 2 2] \<rparr>"

definition closedVehicle :: Vehicle where
  "closedVehicle = scheduledVehicle\<lparr>state := CLOSED\<rparr>"

definition fullStore :: Store where
  "fullStore =
     \<lparr> vehicles = [closedVehicle], valets = freshValets, zones = [mkZone ''z1'' ''A'' 1 0] \<rparr>"

definition reopenedStore :: Store where
  "reopenedStore =
     \<lparr> vehicles = [closedVehicle], valets = freshValets, zones = [mkZone ''z1'' ''A'' 1 1] \<rparr>"

definition demoEnv1 :: Env where
  "demoEnv1 = \<lparr> clock = 1700000000123, tokenRandom = 7, slotRandom = 17,
                uuid = ''u1'', rowId = ''r1'' \<rparr>"

definition demoEnv2 :: Env where
  "demoEnv2 = \<lparr> clock = 1700000000456, tokenRandom = 7, slotRandom = 17,
                uuid = ''u2'', rowId = ''r2'' \<rparr>"

definition demoDto1 :: CreateVehicleEntryDTO where
  "demoDto1 = \<lparr> dtoVehicleNumber = ''KL07AB1234'', dtoCustomerPhone = ''9876543210'',
                dtoCustomerType = None, dtoEntryOperatorId = ''op-1'' \<rparr>"

definition demoDto2 :: CreateVehicleEntryDTO where
  "demoDto2 = \<lparr> dtoVehicleNumber = ''KL01AB0001'', dtoCustomerPhone = ''9876543211'',
                dtoCustomerType = None, dtoEntryOperatorId = ''op-1'' \<rparr>"

definition demoDto1Spaced :: CreateVehicleEntryDTO where
  "demoDto1Spaced = demoDto1\<lparr>dtoVehicleNumber := '' kl07 ab 1234 ''\<rparr>"

text \<open>Plate, zone, slot label and state of every vehicle row, in table order.\<close>

definition slotLabels :: "Store \<Rightarrow> (string \<times> string \<times> string \<times> VehicleState) list" where
  "slotLabels st = map (\<lambda>v. (vehicleNumber v, zone v, slot v, state v)) (vehicles st)"

section \<open>Properties of the vehicle lifecycle\<close>

lemma transition_simps:
  "transition SCHEDULED ON_THE_WAY = Inl (InvalidStateTransition SCHEDULED ON_THE_WAY)"
  "transition RETRIEVAL_ASSIGNED ON_THE_WAY = Inr ON_THE_WAY"
  "transition RETRIEVAL_ASSIGNED RETRIEVAL_ASSIGNED
     = Inl (InvalidStateTransition RETRIEVAL_ASSIGNED RETRIEVAL_ASSIGNED)"
  "transition SCHEDULED RETRIEVAL_ASSIGNED = Inr RETRIEVAL_ASSIGNED"
  by (simp_all add: transition_def)

text \<open>
  The five methods that ask the transition table before they write leave the vehicle as
  it was when they fail.
\<close>

lemma markAsParked_fail_unchanged:
  "fst (markAsParked now v) \<noteq> None \<Longrightarrow> snd (markAsParked now v) = v"
  by (cases "transition (state v) PARKED") (auto simp: markAsParked_def split: if_splits)

lemma requestMarkOut_fail_unchanged:
  "fst (requestMarkOut now m v) \<noteq> None \<Longrightarrow> snd (requestMarkOut now m v) = v"
  by (cases "transition (state v) SCHEDULED") (auto simp: requestMarkOut_def split: if_splits)

lemma startRetrieval_fail_unchanged:
  "fst (startRetrieval now v) \<noteq> None \<Longrightarrow> snd (startRetrieval now v) = v"
  by (cases "transition (state v) ON_THE_WAY") (auto simp: startRetrieval_def split: if_splits)

lemma markAsDelivered_fail_unchanged:
  "fst (markAsDelivered now v) \<noteq> None \<Longrightarrow> snd (markAsDelivered now v) = v"
  by (cases "transition (state v) DELIVERED") (auto simp: markAsDelivered_def split: if_splits)

lemma close_fail_unchanged:
  "fst (close now v) \<noteq> None \<Longrightarrow> snd (close now v) = v"
  by (cases "transition (state v) CLOSED") (auto simp: close_def split: if_splits)

text \<open>
  C1 (as stated, refuted). A vehicle in state SCHEDULED whose scheduled instant 420000
  has passed at 500000: \<open>startRetrieval\<close> passes its state guard and its time gate
  and is then refused by the transition table, which has no edge from SCHEDULED to
  ON_THE_WAY. The vehicle stays as it was.
\<close>

theorem startRetrieval_scheduled_rejected:
  "state scheduledVehicle = SCHEDULED
   \<and> scheduledAt scheduledVehicle = Some 420000
   \<and> startRetrieval 500000 scheduledVehicle
       = (Some (InvalidStateTransition SCHEDULED ON_THE_WAY), scheduledVehicle)"
  by (simp add: scheduledVehicle_def startRetrieval_def isReadyForRetrieval_def
      isRetrievalTimeReached_def transition_simps)

text \<open>
  C1 (amended). With \<open>scheduledAt\<close> set to \<open>t\<close>:
  from RETRIEVAL_ASSIGNED and \<open>t \<le> now\<close>, \<open>startRetrieval\<close> succeeds, moves the
  vehicle to ON_THE_WAY and stamps \<open>retrievalStartedAt\<close> (and \<open>updatedAt\<close>);
  from SCHEDULED and \<open>t \<le> now\<close> it fails with the invalid-transition error;
  from either state and \<open>now < t\<close> it fails with the time-gate error.
  Every failure leaves the vehicle unchanged.
\<close>

theorem startRetrieval_time_gate:
  "(state v = RETRIEVAL_ASSIGNED \<and> scheduledAt v = Some t \<and> t \<le> now \<longrightarrow>
      startRetrieval now v
        = (None, v\<lparr>state := ON_THE_WAY, retrievalStartedAt := Some now, updatedAt := now\<rparr>))
   \<and> (state v = SCHEDULED \<and> scheduledAt v = Some t \<and> t \<le> now \<longrightarrow>
      startRetrieval now v = (Some (InvalidStateTransition SCHEDULED ON_THE_WAY), v))
   \<and> ((state v = SCHEDULED \<or> state v = RETRIEVAL_ASSIGNED) \<and> scheduledAt v = Some t \<and> now < t \<longrightarrow>
      startRetrieval now v = (Some RetrievalTimeNotReached, v))"
  by (auto simp: startRetrieval_def isReadyForRetrieval_def isRetrievalTimeReached_def
      transition_simps)

theorem startRetrieval_time_gate_witness:
  "state assignedVehicle = RETRIEVAL_ASSIGNED \<and> scheduledAt assignedVehicle = Some 420000
   \<and> (420000::int) \<le> 500000
   \<and> startRetrieval 500000 assignedVehicle
       = (None, assignedVehicle\<lparr>state := ON_THE_WAY, retrievalStartedAt := Some 500000,
                                 updatedAt := 500000\<rparr>)
   \<and> state scheduledVehicle = SCHEDULED \<and> scheduledAt scheduledVehicle = Some 420000
   \<and> startRetrieval 500000 scheduledVehicle
       = (Some (InvalidStateTransition SCHEDULED ON_THE_WAY), scheduledVehicle)
   \<and> (300000::int) < 420000
   \<and> startRetrieval 300000 scheduledVehicle = (Some RetrievalTimeNotReached, scheduledVehicle)
   \<and> startRetrieval 300000 assignedVehicle = (Some RetrievalTimeNotReached, assignedVehicle)"
proof -
  have s: "state scheduledVehicle = SCHEDULED" "scheduledAt scheduledVehicle = Some 420000"
    by (simp_all add: scheduledVehicle_def)
  have a: "state assignedVehicle = RETRIEVAL_ASSIGNED" "scheduledAt assignedVehicle = Some 420000"
    by (simp_all add: assignedVehicle_def scheduledVehicle_def)
  show ?thesis
    using s a
      startRetrieval_time_gate [of assignedVehicle 420000 500000]
      startRetrieval_time_gate [of scheduledVehicle 420000 500000]
      startRetrieval_time_gate [of scheduledVehicle 420000 300000]
      startRetrieval_time_gate [of assignedVehicle 420000 300000]
    by simp
qed

text \<open>
  C2 (the code at the failing input). A vehicle already in RETRIEVAL_ASSIGNED with
  retrieval valet \<open>valet-1\<close>: \<open>assignRetrievalValet\<close> with another valet fails with
  the invalid-transition error, and the vehicle it leaves behind names the new valet.
\<close>

theorem assignRetrievalValet_partial_write:
  "state assignedVehicle = RETRIEVAL_ASSIGNED
   \<and> retrievalValetId assignedVehicle = Some ''valet-1''
   \<and> fst (assignRetrievalValet 500000 ''valet-2'' assignedVehicle)
       = Some (InvalidStateTransition RETRIEVAL_ASSIGNED RETRIEVAL_ASSIGNED)
   \<and> retrievalValetId (snd (assignRetrievalValet 500000 ''valet-2'' assignedVehicle))
       = Some ''valet-2''
   \<and> snd (assignRetrievalValet 500000 ''valet-2'' assignedVehicle) \<noteq> assignedVehicle"
  by (simp add: assignedVehicle_def scheduledVehicle_def assignRetrievalValet_def
      isReadyForRetrieval_def transition_simps Let_def)

section \<open>Properties of the round-robin dispatcher\<close>

lemma sorted_hd_min:
  "sorted (map f ys) \<Longrightarrow> y \<in> set ys \<Longrightarrow> f (hd ys) \<le> f y"
  by (cases ys) auto

lemma hd_sort_key_in: "xs \<noteq> [] \<Longrightarrow> hd (sort_key f xs) \<in> set xs"
proof -
  assume "xs \<noteq> []"
  then have "sort_key f xs \<noteq> []" by (metis length_0_conv length_sort)
  then have "hd (sort_key f xs) \<in> set (sort_key f xs)" by (rule hd_in_set)
  then show ?thesis by simp
qed

lemma hd_sort_key_min: "x \<in> set xs \<Longrightarrow> f (hd (sort_key f xs)) \<le> f x"
  by (rule sorted_hd_min) simp_all

lemma selectValet_props:
  assumes "xs \<noteq> []"
  shows "selectValet xs \<in> set xs"
    and "w \<in> set xs \<Longrightarrow> assignmentSequence (selectValet xs) \<le> assignmentSequence w"
    and "w \<in> set xs \<Longrightarrow> assignmentSequence w = assignmentSequence (selectValet xs)
           \<Longrightarrow> todayCount (selectValet xs) \<le> todayCount w"
proof -
  define srt where "srt = sort_key assignmentSequence xs"
  define low where "low = assignmentSequence (hd srt)"
  define cands where "cands = filter (\<lambda>v. assignmentSequence v = low) srt"
  define cands' where "cands' = (if length cands > 1 then sort_key todayCount cands else cands)"
  have sel: "selectValet xs = hd cands'"
    by (simp add: selectValet_def Let_def srt_def low_def cands_def cands'_def)
  have hd_in: "hd srt \<in> set xs" unfolding srt_def using assms by (rule hd_sort_key_in)
  have set_srt: "set srt = set xs" by (simp add: srt_def)
  have set_cands: "set cands = {v \<in> set xs. assignmentSequence v = low}"
    by (auto simp: cands_def set_srt)
  have "hd srt \<in> set cands" using hd_in by (simp add: set_cands low_def)
  then have ne: "cands \<noteq> []" by auto
  have set_cands': "set cands' = set cands" by (simp add: cands'_def)
  have ne': "cands' \<noteq> []" using ne set_cands' by (metis set_empty)
  have hd_c: "hd cands' \<in> set cands" using ne' set_cands' by (metis hd_in_set)
  then show "selectValet xs \<in> set xs" by (simp add: sel set_cands)
  have seq: "assignmentSequence (selectValet xs) = low" using hd_c by (simp add: sel set_cands)
  show "assignmentSequence (selectValet xs) \<le> assignmentSequence w" if "w \<in> set xs"
    using that by (simp add: seq low_def srt_def hd_sort_key_min)
  show "todayCount (selectValet xs) \<le> todayCount w"
    if "w \<in> set xs" "assignmentSequence w = assignmentSequence (selectValet xs)"
  proof -
    have wc: "w \<in> set cands" using that seq by (simp add: set_cands)
    show ?thesis
    proof (cases "length cands > 1")
      case True
      then show ?thesis using wc by (simp add: sel cands'_def hd_sort_key_min)
    next
      case False
      then obtain c where "cands = [c]" using ne by (cases cands) auto
      then show ?thesis using wc by (simp add: sel cands'_def)
    qed
  qed
qed


lemma findById_distinct:
  "distinct (map valetId tbl) \<Longrightarrow> v \<in> set tbl \<Longrightarrow> findById (valetId v) tbl = Some v"
  unfolding findById_def by (induction tbl) (auto simp: image_iff)

lemma same_id_same_row:
  "distinct (map valetId tbl) \<Longrightarrow> v \<in> set tbl \<Longrightarrow> r \<in> set tbl
     \<Longrightarrow> valetId r = valetId v \<longleftrightarrow> r = v"
  by (auto simp: distinct_map dest: inj_onD)

lemma update_row:
  assumes "distinct (map valetId tbl)" "v \<in> set tbl" "valetId v' = valetId v"
  shows "update now v' tbl = Inr (map (\<lambda>r. if r = v then writeValet now v' v else r) tbl)"
proof -
  have "findById (valetId v') tbl = Some v" using assms by (simp add: findById_distinct)
  moreover have "map (\<lambda>r. if valetId r = valetId v' then writeValet now v' r else r) tbl
               = map (\<lambda>r. if r = v then writeValet now v' v else r) tbl"
    by (rule map_cong) (use assms same_id_same_row in auto)
  ultimately show ?thesis by (simp add: update_def)
qed

lemma set_findActive: "set (findActive tbl) = {v \<in> set tbl. isActive v}"
  by (auto simp: findActive_def)

lemma set_available:
  "set (filter (canBeAssigned now) (findActive tbl)) = {v \<in> set tbl. canBeAssigned now v}"
  by (auto simp: set_findActive canBeAssigned_def)

lemma assignTask_ok: "canBeAssigned now v \<Longrightarrow> assignTask now v = (None, assigned now v)"
  by (simp add: assignTask_def assigned_def getStatusAfterAssignment_def)

lemma writeValet_assigned: "writeValet now (assigned now v) v = assigned now v"
  by (simp add: writeValet_def assigned_def)

lemma execute_success:
  assumes d: "distinct (map valetId tbl)" and ex: "v0 \<in> set tbl" "canBeAssigned now v0"
  defines "sel \<equiv> selectValet (filter (canBeAssigned now) (findActive tbl))"
  shows "sel \<in> set tbl" and "canBeAssigned now sel"
    and "\<And>w. w \<in> set tbl \<Longrightarrow> canBeAssigned now w \<Longrightarrow>
           assignmentSequence sel \<le> assignmentSequence w"
    and "\<And>w. w \<in> set tbl \<Longrightarrow> canBeAssigned now w \<Longrightarrow>
           assignmentSequence w = assignmentSequence sel \<Longrightarrow> todayCount sel \<le> todayCount w"
    and "execute now ty tbl
           = (Inr (assigned now sel), map (\<lambda>r. if r = sel then assigned now sel else r) tbl)"
proof -
  let ?av = "filter (canBeAssigned now) (findActive tbl)"
  have v0: "v0 \<in> set ?av" using ex by (simp only: set_available) simp
  then have ne: "?av \<noteq> []" by (metis empty_iff empty_set)
  have ne2: "findActive tbl \<noteq> []" using ne by (metis filter.simps(1))
  have "sel \<in> set ?av" unfolding sel_def using ne by (rule selectValet_props(1))
  then have "sel \<in> {v \<in> set tbl. canBeAssigned now v}" by (simp only: set_available)
  then show in_tbl: "sel \<in> set tbl" and can: "canBeAssigned now sel"
    by simp_all
  show "assignmentSequence sel \<le> assignmentSequence w"
    if "w \<in> set tbl" "canBeAssigned now w" for w
  proof -
    have "w \<in> set ?av" using that by (simp only: set_available) simp
    then show ?thesis unfolding sel_def using ne by (intro selectValet_props(2))
  qed
  show "todayCount sel \<le> todayCount w"
    if "w \<in> set tbl" "canBeAssigned now w" "assignmentSequence w = assignmentSequence sel" for w
  proof -
    have "w \<in> set ?av" using that by (simp only: set_available) simp
    then show ?thesis using that(3) unfolding sel_def using ne by (intro selectValet_props(3))
  qed
  have upd: "update now (assigned now sel) tbl
               = Inr (map (\<lambda>r. if r = sel then assigned now sel else r) tbl)"
  proof -
    have "valetId (assigned now sel) = valetId sel" by (simp add: assigned_def)
    from update_row [OF d in_tbl this, of now] show ?thesis
      by (simp only: writeValet_assigned)
  qed
  show "execute now ty tbl
           = (Inr (assigned now sel), map (\<lambda>r. if r = sel then assigned now sel else r) tbl)"
    using ne ne2 can upd
    by (simp add: execute_def Let_def assignTask_ok sel_def [symmetric])
qed

lemma execute_failure:
  assumes "\<And>v. v \<in> set tbl \<Longrightarrow> \<not> canBeAssigned now v"
  shows "execute now ty tbl =
           (Inl (if filter isActive tbl = [] then NoActiveValets
                 else createNoAvailableValetsError now (findActive tbl)), tbl)"
proof -
  have "set (filter (canBeAssigned now) (findActive tbl)) = {}"
    by (simp only: set_available) (use assms in auto)
  then have e: "filter (canBeAssigned now) (findActive tbl) = []" by (simp only: set_empty)
  have f: "findActive tbl = [] \<longleftrightarrow> filter isActive tbl = []"
    by (metis findActive_def length_0_conv length_sort)
  show ?thesis using e f by (simp add: execute_def Let_def)
qed


lemma isInShift_cong:
  "shiftStart v' = shiftStart v \<Longrightarrow> shiftEnd v' = shiftEnd v \<Longrightarrow> isInShift now v' = isInShift now v"
  by (simp add: isInShift_def)

lemma released_fields:
  "valetId (released now v) = valetId v"
  "status (released now v) = FREE"
  "isActive (released now v) = isActive v"
  "shiftStart (released now v) = shiftStart v"
  "shiftEnd (released now v) = shiftEnd v"
  "assignmentSequence (released now v) = assignmentSequence v + 1"
  "todayCount (released now v) = todayCount v + 1"
  "totalCount (released now v) = totalCount v + 1"
  by (simp_all add: released_def assigned_def)

lemma round_step:
  assumes d: "distinct (map valetId tbl)" and ne: "tbl \<noteq> []"
    and elig: "\<And>v. v \<in> set tbl \<Longrightarrow> canBeAssigned now v"
  defines "sel \<equiv> selectValet (filter (canBeAssigned now) (findActive tbl))"
  shows "assignRounds (now # nows) tbl
           = assignRounds nows (map (\<lambda>r. if r = sel then released now sel else r) tbl)"
proof -
  obtain v0 where v0: "v0 \<in> set tbl" using ne by (cases tbl) auto
  note ex = execute_success [OF d v0 elig [OF v0], folded sel_def]
  let ?a = "assigned now sel"
  let ?tbl1 = "map (\<lambda>r. if r = sel then ?a else r) tbl"
  have ida: "valetId ?a = valetId sel" by (simp add: assigned_def)
  have ids1: "map valetId ?tbl1 = map valetId tbl" using ida by (induction tbl) auto
  have d1: "distinct (map valetId ?tbl1)" using d by (simp only: ids1)
  have a_in: "?a \<in> set ?tbl1" using ex(1) by (auto simp: image_iff)
  have fb: "findById (valetId ?a) ?tbl1 = Some ?a" using d1 a_in by (rule findById_distinct)
  have ct: "completeTask now ?a = (None, released now sel)"
    by (simp add: completeTask_def released_def assigned_def getStatusAfterCompletion_def)
  have idr: "valetId (released now sel) = valetId ?a" by (simp add: released_fields ida)
  have wr: "writeValet now (released now sel) ?a = released now sel"
    by (simp add: writeValet_def released_def assigned_def)
  have up: "update now (released now sel) ?tbl1
              = Inr (map (\<lambda>r. if r = ?a then released now sel else r) ?tbl1)"
    using update_row [OF d1 a_in idr, of now] by (simp only: wr)
  have comp: "map (\<lambda>r. if r = ?a then released now sel else r) ?tbl1
                = map (\<lambda>r. if r = sel then released now sel else r) tbl"
  proof -
    have "r \<noteq> ?a" if "r \<in> set tbl" "r \<noteq> sel" for r
    proof
      assume "r = ?a"
      then have "valetId r = valetId sel" using ida by simp
      then show False using same_id_same_row [OF d ex(1) that(1)] that(2) by simp
    qed
    then show ?thesis by (simp add: comp_def cong: map_cong)
  qed
  have rel: "releaseValet now (valetId ?a) ?tbl1
               = (None, map (\<lambda>r. if r = sel then released now sel else r) tbl)"
    by (simp only: releaseValet_def fb ct up comp option.case sum.case prod.case)
  show ?thesis
    by (simp only: assignRounds.simps ex(5) rel prod.case sum.case option.case)
qed

lemma assignRounds_fair_aux:
  assumes "distinct (map valetId tbl)" "tbl \<noteq> []"
    and "\<And>v. v \<in> set tbl \<Longrightarrow> status v = FREE \<and> isActive v
           \<and> assignmentSequence v = todayCount v + d"
    and "\<And>v now. v \<in> set tbl \<Longrightarrow> now \<in> set nows \<Longrightarrow> isInShift now v"
    and "\<And>v w. v \<in> set tbl \<Longrightarrow> w \<in> set tbl \<Longrightarrow> todayCount v \<le> todayCount w + 1"
  shows "\<exists>tbl'. assignRounds nows tbl = Inr tbl' \<and> map valetId tbl' = map valetId tbl
           \<and> (\<forall>v\<in>set tbl'. \<forall>w\<in>set tbl'. todayCount v \<le> todayCount w + 1)"
  using assms
proof (induction nows arbitrary: tbl)
  case Nil
  then show ?case by simp
next
  case (Cons now nows)
  define sel where "sel = selectValet (filter (canBeAssigned now) (findActive tbl))"
  define R where "R = released now sel"
  define tbl2 where "tbl2 = map (\<lambda>r. if r = sel then R else r) tbl"
  have elig: "canBeAssigned now v" if "v \<in> set tbl" for v
    using Cons.prems(3) [OF that] Cons.prems(4) [OF that, of now]
    by (simp add: canBeAssigned_def statusCanBeAssigned_def)
  obtain v0 where v0: "v0 \<in> set tbl" using Cons.prems(2) by (cases tbl) auto
  note ex = execute_success [OF Cons.prems(1) v0 elig [OF v0], folded sel_def]
  have step: "assignRounds (now # nows) tbl = assignRounds nows tbl2"
    unfolding tbl2_def R_def sel_def by (rule round_step [OF Cons.prems(1,2) elig])
  have ids: "map valetId tbl2 = map valetId tbl"
    unfolding tbl2_def R_def by (induction tbl) (auto simp: released_fields)
  have mem: "v = R \<or> v \<in> set tbl" if "v \<in> set tbl2" for v
    using that unfolding tbl2_def by auto
  have selmin: "todayCount sel \<le> todayCount w" if "w \<in> set tbl" for w
  proof -
    have "assignmentSequence sel \<le> assignmentSequence w" using ex(3) [OF that elig [OF that]] .
    then show ?thesis using Cons.prems(3) [OF that] Cons.prems(3) [OF ex(1)] by simp
  qed
  have Rt: "todayCount R = todayCount sel + 1" by (simp add: R_def released_fields)
  have p1: "distinct (map valetId tbl2)" using Cons.prems(1) by (simp only: ids)
  have p2: "tbl2 \<noteq> []" using Cons.prems(2) by (simp add: tbl2_def)
  have p3: "status v = FREE \<and> isActive v \<and> assignmentSequence v = todayCount v + d"
    if "v \<in> set tbl2" for v
    using mem [OF that] Cons.prems(3) [OF ex(1)] Cons.prems(3) [of v]
    by (auto simp: R_def released_fields)
  have p4: "isInShift n v" if "v \<in> set tbl2" "n \<in> set nows" for v n
  proof -
    have "isInShift n R = isInShift n sel"
      unfolding R_def by (rule isInShift_cong) (simp_all add: released_fields)
    moreover have "isInShift n sel" using Cons.prems(4) [OF ex(1), of n] that(2) by simp
    moreover have "isInShift n v" if "v \<in> set tbl"
      using Cons.prems(4) [OF that, of n] \<open>n \<in> set nows\<close> by simp
    ultimately show ?thesis using mem [OF that(1)] by auto
  qed
  have p5: "todayCount v \<le> todayCount w + 1" if "v \<in> set tbl2" "w \<in> set tbl2" for v w
  proof -
    have a: "todayCount x \<le> todayCount sel + 1" if "x \<in> set tbl" for x
      using Cons.prems(5) [OF that ex(1)] .
    show ?thesis
      using mem [OF that(1)] mem [OF that(2)] Rt selmin [of w] a [of v] Cons.prems(5) [of v w]
      by auto
  qed
  from Cons.IH [OF p1 p2 p3 p4 p5]
  obtain tbl' where "assignRounds nows tbl2 = Inr tbl'" "map valetId tbl' = map valetId tbl2"
    "\<forall>v\<in>set tbl'. \<forall>w\<in>set tbl'. todayCount v \<le> todayCount w + 1"
    by blast
  then show ?case using step ids by simp
qed

text \<open>
  C3. In a table with distinct ids: when some valet can be assigned (is active, FREE and
  in shift), \<open>execute\<close> succeeds with a valet \<open>v\<close> of the table that can be
  assigned, whose \<open>assignmentSequence\<close> is lowest among the assignable valets and whose
  \<open>todayCount\<close> is lowest among those that tie with it; it returns \<open>v\<close> with
  \<open>assignmentSequence\<close>, \<open>todayCount\<close> and \<open>totalCount\<close> one higher and status
  BUSY, and the table differs from the old one in the row of \<open>v\<close> only. When no valet
  can be assigned it fails with \<open>NoActiveValets\<close> (no active valet at all) or with
  \<open>NoAvailableValets\<close> and its breakdown, and the table is the old one.
\<close>

theorem execute_round_robin:
  assumes "distinct (map valetId tbl)"
  shows "((\<exists>v\<in>set tbl. canBeAssigned now v) \<longrightarrow>
            (\<exists>v\<in>set tbl. canBeAssigned now v
               \<and> (\<forall>w\<in>set tbl. canBeAssigned now w \<longrightarrow>
                     assignmentSequence v \<le> assignmentSequence w
                     \<and> (assignmentSequence w = assignmentSequence v \<longrightarrow> todayCount v \<le> todayCount w))
               \<and> execute now ty tbl
                   = (Inr (assigned now v), map (\<lambda>r. if r = v then assigned now v else r) tbl)))
       \<and> (\<not> (\<exists>v\<in>set tbl. canBeAssigned now v) \<longrightarrow>
            execute now ty tbl
              = (Inl (if filter isActive tbl = [] then NoActiveValets
                      else createNoAvailableValetsError now (findActive tbl)), tbl))"
proof (intro conjI impI)
  assume "\<exists>v\<in>set tbl. canBeAssigned now v"
  then obtain v0 where v0: "v0 \<in> set tbl" "canBeAssigned now v0" by blast
  note ex = execute_success [OF assms v0]
  show "\<exists>v\<in>set tbl. canBeAssigned now v
          \<and> (\<forall>w\<in>set tbl. canBeAssigned now w \<longrightarrow>
                assignmentSequence v \<le> assignmentSequence w
                \<and> (assignmentSequence w = assignmentSequence v \<longrightarrow> todayCount v \<le> todayCount w))
          \<and> execute now ty tbl
              = (Inr (assigned now v), map (\<lambda>r. if r = v then assigned now v else r) tbl)"
    using ex(1) ex(2) ex(3) ex(4) ex(5) [of ty] by blast
next
  assume "\<not> (\<exists>v\<in>set tbl. canBeAssigned now v)"
  then have "\<And>v. v \<in> set tbl \<Longrightarrow> \<not> canBeAssigned now v" by blast
  then show "execute now ty tbl
               = (Inl (if filter isActive tbl = [] then NoActiveValets
                       else createNoAvailableValetsError now (findActive tbl)), tbl)"
    by (rule execute_failure)
qed

theorem execute_round_robin_witness:
  "distinct (map valetId demoValets)
   \<and> (\<exists>v\<in>set demoValets. canBeAssigned 0 v)
   \<and> execute 0 ParkingTask demoValets
       = (Inr (assigned 0 (mkValet ''v3'' FREE 1 1)),
          [mkValet ''v1'' FREE 2 2, mkValet ''v2'' FREE 1 3,
           assigned 0 (mkValet ''v3'' FREE 1 1), mkValet ''v4'' BUSY 0 0])
   \<and> distinct (map valetId [mkValet ''v4'' BUSY 0 0])
   \<and> \<not> (\<exists>v\<in>set [mkValet ''v4'' BUSY 0 0]. canBeAssigned 0 v)
   \<and> execute 0 ParkingTask [mkValet ''v4'' BUSY 0 0]
       = (Inl (NoAvailableValets 0 1 0 0 0), [mkValet ''v4'' BUSY 0 0])"
proof -
  have d: "distinct (map valetId demoValets)"
    by (simp add: demoValets_def mkValet_def)
  have c: "canBeAssigned 0 (mkValet ''v3'' FREE 1 1)"
    by (simp add: mkValet_def canBeAssigned_def statusCanBeAssigned_def isInShift_def)
  have e: "\<exists>v\<in>set demoValets. canBeAssigned 0 v"
    using c by (auto simp: demoValets_def)
  have r: "execute 0 ParkingTask demoValets
     = (Inr (assigned 0 (mkValet ''v3'' FREE 1 1)),
        [mkValet ''v1'' FREE 2 2, mkValet ''v2'' FREE 1 3,
         assigned 0 (mkValet ''v3'' FREE 1 1), mkValet ''v4'' BUSY 0 0])"
    by (simp add: demoValets_def execute_def findActive_def mkValet_def canBeAssigned_def
        statusCanBeAssigned_def isInShift_def selectValet_def assignTask_def update_def
        findById_def writeValet_def assigned_def getStatusAfterAssignment_def Let_def)
  have d4: "distinct (map valetId [mkValet ''v4'' BUSY 0 0])" by simp
  have n4: "\<not> (\<exists>v\<in>set [mkValet ''v4'' BUSY 0 0]. canBeAssigned 0 v)"
    by (simp add: mkValet_def canBeAssigned_def statusCanBeAssigned_def)
  have f: "execute 0 ParkingTask [mkValet ''v4'' BUSY 0 0]
             = (Inl (NoAvailableValets 0 1 0 0 0), [mkValet ''v4'' BUSY 0 0])"
    using execute_round_robin [OF d4, of 0 ParkingTask] n4
    by (simp add: createNoAvailableValetsError_def findActive_def mkValet_def isInShift_def)
  show ?thesis
    using d e r d4 n4 f execute_round_robin [OF d, of 0 ParkingTask] by simp
qed

text \<open>
  C6. \<open>N \<ge> 1\<close> valets with distinct ids, all FREE and active, with equal
  \<open>assignmentSequence\<close> and equal \<open>todayCount\<close>, each in shift at every instant of
  the run: \<open>K\<close> rounds (one per instant; assign, then release the assigned valet)
  all succeed, keep the ids of the table, and leave the \<open>todayCount\<close> of any two
  valets at most 1 apart.
\<close>

theorem round_robin_fairness:
  assumes "distinct (map valetId tbl)" and "tbl \<noteq> []"
    and "\<forall>v\<in>set tbl. status v = FREE \<and> isActive v
           \<and> assignmentSequence v = s0 \<and> todayCount v = c0"
    and "\<forall>now\<in>set nows. \<forall>v\<in>set tbl. isInShift now v"
  shows "\<exists>tbl'. assignRounds nows tbl = Inr tbl'
           \<and> map valetId tbl' = map valetId tbl
           \<and> (\<forall>v\<in>set tbl'. \<forall>w\<in>set tbl'. \<bar>todayCount v - todayCount w\<bar> \<le> 1)"
proof -
  have a3: "status v = FREE \<and> isActive v \<and> assignmentSequence v = todayCount v + (s0 - c0)"
    if "v \<in> set tbl" for v using assms(3) that by simp
  have a4: "isInShift now v" if "v \<in> set tbl" "now \<in> set nows" for v now
    using assms(4) that by blast
  have a5: "todayCount v \<le> todayCount w + 1" if "v \<in> set tbl" "w \<in> set tbl" for v w
    using assms(3) that by simp
  from assignRounds_fair_aux [OF assms(1,2) a3 a4 a5]
  obtain tbl' where t: "assignRounds nows tbl = Inr tbl'" "map valetId tbl' = map valetId tbl"
    "\<forall>v\<in>set tbl'. \<forall>w\<in>set tbl'. todayCount v \<le> todayCount w + 1"
    by blast
  have "\<bar>todayCount v - todayCount w\<bar> \<le> 1" if "v \<in> set tbl'" "w \<in> set tbl'" for v w
  proof -
    have "todayCount v \<le> todayCount w + 1" "todayCount w \<le> todayCount v + 1"
      using t(3) that by blast+
    then show ?thesis by linarith
  qed
  then show ?thesis using t(1,2) by blast
qed

theorem round_robin_fairness_witness:
  "distinct (map valetId freshValets) \<and> freshValets \<noteq> []
   \<and> list_all (\<lambda>v. status v = FREE \<and> isActive v
                    \<and> assignmentSequence v = 0 \<and> todayCount v = 0) freshValets
   \<and> list_all (\<lambda>now. list_all (isInShift now) freshValets) [0, 1, 2, 3]
   \<and> (\<exists>tbl'. assignRounds [0, 1, 2, 3] freshValets = Inr tbl'
           \<and> map valetId tbl' = map valetId freshValets
           \<and> (\<forall>v\<in>set tbl'. \<forall>w\<in>set tbl'. \<bar>todayCount v - todayCount w\<bar> \<le> 1))"
proof -
  have d: "distinct (map valetId freshValets)" and n: "freshValets \<noteq> []"
    by (simp_all add: freshValets_def mkValet_def)
  have h3: "\<forall>v\<in>set freshValets. status v = FREE \<and> isActive v
              \<and> assignmentSequence v = 0 \<and> todayCount v = 0"
    by (simp add: freshValets_def mkValet_def)
  have h4: "\<forall>now\<in>set [0, 1, 2, 3]. \<forall>v\<in>set freshValets. isInShift now v"
    by (simp add: freshValets_def mkValet_def isInShift_def)
  show ?thesis
    using d n h3 h4 round_robin_fairness [OF d n h3 h4]
    by (simp add: list_all_iff)
qed

text \<open>
  C10. On a BUSY valet \<open>takeBreak\<close> and \<open>goOffDuty\<close> fail and leave the valet as it
  was; so do \<open>assignTask\<close>, \<open>returnFromBreak\<close> and \<open>startDuty\<close>;
  \<open>resetDailyCounters\<close> keeps the status. Only \<open>completeTask\<close> changes the status,
  and it sets FREE.
\<close>

theorem busy_left_only_by_completeTask:
  "status v = BUSY \<Longrightarrow>
     takeBreak now v = (Some CannotTakeBreakWhileBusy, v)
     \<and> goOffDuty now v = (Some CannotGoOffDutyWhileBusy, v)
     \<and> assignTask now v = (Some (ValetCannotBeAssigned (name v) BUSY), v)
     \<and> returnFromBreak now v = (Some (ValetNotOnBreak BUSY), v)
     \<and> startDuty now v = (Some (ValetNotOffDuty BUSY), v)
     \<and> status (snd (resetDailyCounters now v)) = BUSY
     \<and> completeTask now v = (None, v\<lparr>status := FREE, valetUpdatedAt := now\<rparr>)"
  by (simp add: takeBreak_def goOffDuty_def assignTask_def canBeAssigned_def
      statusCanBeAssigned_def returnFromBreak_def startDuty_def resetDailyCounters_def
      completeTask_def getStatusAfterCompletion_def)

theorem busy_left_only_by_completeTask_witness:
  "status (mkValet ''v4'' BUSY 0 0) = BUSY
   \<and> takeBreak 5 (mkValet ''v4'' BUSY 0 0) = (Some CannotTakeBreakWhileBusy, mkValet ''v4'' BUSY 0 0)
   \<and> goOffDuty 5 (mkValet ''v4'' BUSY 0 0) = (Some CannotGoOffDutyWhileBusy, mkValet ''v4'' BUSY 0 0)
   \<and> completeTask 5 (mkValet ''v4'' BUSY 0 0)
       = (None, (mkValet ''v4'' BUSY 0 0)\<lparr>status := FREE, valetUpdatedAt := 5\<rparr>)"
proof -
  have b: "status (mkValet ''v4'' BUSY 0 0) = BUSY" by (simp add: mkValet_def)
  show ?thesis using b busy_left_only_by_completeTask [OF b, of 5] by simp
qed

section \<open>Properties of the parking zones\<close>

lemma applySlotOp_range:
  "0 \<le> availableSlots z \<Longrightarrow> availableSlots z \<le> totalSlots z \<Longrightarrow>
     0 \<le> availableSlots (snd (applySlotOp opn z))
     \<and> availableSlots (snd (applySlotOp opn z)) \<le> totalSlots (snd (applySlotOp opn z))
     \<and> totalSlots (snd (applySlotOp opn z)) = totalSlots z"
  by (cases opn) (simp_all add: occupySlot_def releaseSlot_def)

lemma runSlotOps_range:
  "0 \<le> availableSlots z \<Longrightarrow> availableSlots z \<le> totalSlots z \<Longrightarrow>
     0 \<le> availableSlots (runSlotOps ops z)
     \<and> availableSlots (runSlotOps ops z) \<le> totalSlots (runSlotOps ops z)
     \<and> totalSlots (runSlotOps ops z) = totalSlots z"
proof (induction ops arbitrary: z)
  case Nil
  then show ?case by simp
next
  case (Cons opn ops)
  from applySlotOp_range [OF Cons.prems, of opn]
  have a: "0 \<le> availableSlots (snd (applySlotOp opn z))"
    "availableSlots (snd (applySlotOp opn z)) \<le> totalSlots (snd (applySlotOp opn z))"
    "totalSlots (snd (applySlotOp opn z)) = totalSlots z" by simp_all
  from Cons.IH [OF a(1,2)] a(3) show ?case by simp
qed

text \<open>
  C4 (as stated, refuted). The repository's slot release is unconditional: on a zone
  whose \<open>availableSlots\<close> equals \<open>totalSlots\<close>, \<open>incrementAvailableSlots\<close>
  succeeds and leaves \<open>availableSlots\<close> above \<open>totalSlots\<close>.
\<close>

theorem repository_over_release:
  "availableSlots (mkZone ''z1'' ''A'' 1 1) = totalSlots (mkZone ''z1'' ''A'' 1 1)
   \<and> incrementAvailableSlots ''z1'' [mkZone ''z1'' ''A'' 1 1] = Inr [mkZone ''z1'' ''A'' 1 2]
   \<and> availableSlots (mkZone ''z1'' ''A'' 1 2) > totalSlots (mkZone ''z1'' ''A'' 1 2)"
  by (simp add: incrementAvailableSlots_def mkZone_def)

text \<open>
  C4 (amended). For a zone object that starts with
  \<open>0 \<le> availableSlots \<le> totalSlots\<close>, every sequence of \<open>occupySlot\<close> and
  \<open>releaseSlot\<close> calls keeps \<open>availableSlots\<close> within these bounds and leaves
  \<open>totalSlots\<close> as it is; \<open>occupySlot\<close> at \<open>availableSlots = 0\<close> fails and
  changes nothing, and \<open>releaseSlot\<close> at \<open>availableSlots = totalSlots\<close> fails with
  the all-slots-free error and changes nothing.
\<close>

theorem slot_accounting:
  "0 \<le> availableSlots z \<and> availableSlots z \<le> totalSlots z \<Longrightarrow>
     0 \<le> availableSlots (runSlotOps ops z)
     \<and> availableSlots (runSlotOps ops z) \<le> totalSlots (runSlotOps ops z)
     \<and> totalSlots (runSlotOps ops z) = totalSlots z
     \<and> (availableSlots z = 0 \<longrightarrow> occupySlot z = (Some NoSlotsAvailable, z))
     \<and> (availableSlots z = totalSlots z \<longrightarrow> releaseSlot z = (Some AllSlotsAlreadyFree, z))"
  using runSlotOps_range [of z ops] by (simp add: occupySlot_def releaseSlot_def)

theorem slot_accounting_witness:
  "0 \<le> availableSlots (mkZone ''z1'' ''A'' 1 1)
   \<and> availableSlots (mkZone ''z1'' ''A'' 1 1) \<le> totalSlots (mkZone ''z1'' ''A'' 1 1)
   \<and> runSlotOps [Release, Occupy, Occupy, Release, Release] (mkZone ''z1'' ''A'' 1 1)
        = mkZone ''z1'' ''A'' 1 1
   \<and> releaseSlot (mkZone ''z1'' ''A'' 1 1) = (Some AllSlotsAlreadyFree, mkZone ''z1'' ''A'' 1 1)
   \<and> occupySlot (mkZone ''z1'' ''A'' 1 0) = (Some NoSlotsAvailable, mkZone ''z1'' ''A'' 1 0)"
proof -
  have h: "0 \<le> availableSlots (mkZone ''z1'' ''A'' 1 1)
     \<and> availableSlots (mkZone ''z1'' ''A'' 1 1) \<le> totalSlots (mkZone ''z1'' ''A'' 1 1)"
    by (simp add: mkZone_def)
  have h0: "0 \<le> availableSlots (mkZone ''z1'' ''A'' 1 0)
     \<and> availableSlots (mkZone ''z1'' ''A'' 1 0) \<le> totalSlots (mkZone ''z1'' ''A'' 1 0)"
    by (simp add: mkZone_def)
  have r: "runSlotOps [Release, Occupy, Occupy, Release, Release] (mkZone ''z1'' ''A'' 1 1)
        = mkZone ''z1'' ''A'' 1 1"
    by (simp add: mkZone_def occupySlot_def releaseSlot_def)
  show ?thesis
    using h r slot_accounting [OF h, of "[]"] slot_accounting [OF h0, of "[]"]
    by (simp add: mkZone_def)
qed

section \<open>Properties of the entry use case\<close>

lemma digitChar_isDigit: "d < 10 \<Longrightarrow> isDigit (digitChar d)"
proof -
  assume "d < 10"
  then have "d \<in> {0, 1, 2, 3, 4, 5, 6, 7, 8, 9}" by auto
  then show ?thesis by (auto simp: isDigit_def digitChar_def)
qed

lemma digitsOf_digits: "list_all isDigit (digitsOf n)"
proof (induction n rule: digitsOf.induct)
  case (1 n)
  show ?case
  proof (cases "n < 10")
    case True
    then show ?thesis by (subst digitsOf.simps) (simp add: digitChar_isDigit)
  next
    case False
    then show ?thesis using 1 by (subst digitsOf.simps) (simp add: digitChar_isDigit)
  qed
qed

lemma digitsOf_length: "10 ^ k \<le> n \<Longrightarrow> k < length (digitsOf n)"
proof (induction k arbitrary: n)
  case 0
  then show ?case by (subst digitsOf.simps) simp
next
  case (Suc k)
  then have "10 ^ k \<le> n div 10" by simp
  then have "k < length (digitsOf (n div 10))" by (rule Suc.IH)
  moreover have "\<not> n < 10"
  proof
    assume "n < 10"
    moreover have "(10::nat) \<le> 10 ^ Suc k" by simp
    ultimately show False using Suc.prems by linarith
  qed
  ultimately show ?case by (subst digitsOf.simps) simp
qed

lemma generateToken_shape:
  assumes "100000 \<le> now"
  shows "\<exists>ds. generateToken now r = ''VLT-'' @ ds \<and> length ds = 8 \<and> list_all isDigit ds"
proof -
  define ts where "ts = sliceLast6 (toStringInt now)"
  define rs where "rs = padStart3 (digitsOf r)"
  have str: "toStringInt now = digitsOf (nat now)" using assms by (simp add: toStringInt_def)
  have "10 ^ 5 \<le> nat now" using assms by simp
  then have len: "5 < length (digitsOf (nat now))" by (rule digitsOf_length)
  have tl: "length ts = 6" using len by (simp add: ts_def sliceLast6_def str)
  have td: "list_all isDigit ts"
    using digitsOf_digits [of "nat now"]
    by (auto simp: ts_def sliceLast6_def str list_all_iff dest: in_set_dropD)
  have rl: "3 \<le> length rs" by (simp add: rs_def padStart3_def)
  have z: "isDigit CHR ''0''" by (simp add: isDigit_def)
  have rd: "list_all isDigit rs"
    using digitsOf_digits [of r] z by (auto simp: rs_def padStart3_def list_all_iff)
  have tok: "generateToken now r = ''VLT-'' @ ts @ take 2 rs"
    using tl by (simp add: generateToken_def Let_def ts_def [symmetric] rs_def [symmetric])
  have "length (ts @ take 2 rs) = 8" using tl rl by simp
  moreover have "list_all isDigit (ts @ take 2 rs)"
    using td rd by (auto simp: list_all_iff dest: in_set_takeD)
  ultimately show ?thesis using tok by blast
qed

lemma findAvailableZone_in:
  "findAvailableZone tbl = Some zn \<Longrightarrow> zn \<in> set tbl \<and> availableSlots zn > 0 \<and> zoneIsActive zn"
proof -
  assume a: "findAvailableZone tbl = Some zn"
  let ?xs = "sort_key priority (filter (\<lambda>z. availableSlots z > 0 \<and> zoneIsActive z) tbl)"
  from a obtain rest where "?xs = zn # rest"
    by (auto simp: findAvailableZone_def split: list.splits)
  then have "zn \<in> set ?xs" by simp
  then show ?thesis by simp
qed

lemma decrement_ok:
  "zn \<in> set tbl \<Longrightarrow> \<exists>tbl'. decrementAvailableSlots (zoneId zn) tbl = Inr tbl'"
  by (auto simp: decrementAvailableSlots_def find_None_iff)

lemma checkDuplicateEntry_None:
  "checkDuplicateEntry plate tbl = None \<longleftrightarrow>
     (\<forall>v\<in>set tbl. vehicleNumber v = normalizeVehicleNumber plate \<longrightarrow> state v \<in> {DELIVERED, CLOSED})"
proof -
  have "checkDuplicateEntry plate tbl = None \<longleftrightarrow>
          findActiveByVehicleNumber (normalizeVehicleNumber plate) tbl = None"
    by (simp add: checkDuplicateEntry_def Let_def split: option.splits)
  also have "\<dots> \<longleftrightarrow> (\<forall>v\<in>set tbl. vehicleNumber v = normalizeVehicleNumber plate
                       \<longrightarrow> state v \<in> {DELIVERED, CLOSED})"
    by (auto simp: findActiveByVehicleNumber_def find_None_iff)
  finally show ?thesis .
qed

lemma checkDuplicateEntry_Some:
  assumes "v \<in> set tbl" "vehicleNumber v = normalizeVehicleNumber plate"
    "state v \<notin> {DELIVERED, CLOSED}"
  shows "\<exists>tok s. checkDuplicateEntry plate tbl
           = Some (DuplicateEntry (normalizeVehicleNumber plate) tok s)"
proof -
  have "findActiveByVehicleNumber (normalizeVehicleNumber plate) tbl \<noteq> None"
    using assms by (auto simp: findActiveByVehicleNumber_def find_None_iff)
  then show ?thesis by (auto simp: checkDuplicateEntry_def Let_def)
qed

lemma createEntry_duplicate:
  assumes "validateInput dto = None"
    and "checkDuplicateEntry (dtoVehicleNumber dto) (vehicles st) = Some e"
  shows "createEntry env dto st = (Inl e, st)"
  using assms by (simp add: createEntry_def)

lemma createEntry_success:
  assumes v: "validateInput dto = None"
    and nd: "checkDuplicateEntry (dtoVehicleNumber dto) (vehicles st) = None"
    and z: "findAvailableZone (zones st) = Some zn"
    and d: "distinct (map valetId (valets st))"
    and a: "v0 \<in> set (valets st)" "canBeAssigned (clock env) v0"
    and fresh: "generateToken (clock env) (tokenRandom env) \<notin> set (map token (vehicles st))"
  shows "\<exists>resp st'. createEntry env dto st = (Inr resp, st')
           \<and> state (respVehicle resp) = PARKING
           \<and> vehicleNumber (respVehicle resp) = normalizeVehicleNumber (dtoVehicleNumber dto)
           \<and> vehicles st' = vehicles st @ [respVehicle resp]"
proof -
  note ex = execute_success [OF d a]
  from findAvailableZone_in [OF z] have "zn \<in> set (zones st)" by simp
  from decrement_ok [OF this] obtain zt where
    zt: "decrementAvailableSlots (zoneId zn) (zones st) = Inr zt" by blast
  show ?thesis
    using fresh
    by (simp add: createEntry_def v nd z ex(5) zt createVehicle_def Let_def)
qed

lemma createEntry_slot:
  assumes "createEntry env dto st = (Inr resp, st')"
  shows "respSlot resp = digitsOf (slotRandom env + 1)
         \<and> slot (respVehicle resp) = digitsOf (slotRandom env + 1)
         \<and> respVehicle resp \<in> set (vehicles st')"
  using assms
  by (auto simp: createEntry_def createVehicle_def allocateSlot_def Let_def
      split: option.splits sum.splits prod.splits if_splits)

lemma generateToken_first: "generateToken 1700000000123 7 = ''VLT-00012300''"
proof -
  have e1: "toStringInt 1700000000123 = ''1700000000123''"
    by (simp add: toStringInt_def digitChar_def digitsOf.simps)
  have e2: "sliceLast6 ''1700000000123'' = ''000123''" by (simp add: sliceLast6_def)
  have e3: "padStart3 (digitsOf 7) = ''007''"
    by (simp add: padStart3_def digitChar_def numeral_3_eq_3 digitsOf.simps)
  show ?thesis by (simp add: generateToken_def e1 e2 e3)
qed

lemma generateToken_second: "generateToken 1700000000456 7 = ''VLT-00045600''"
proof -
  have e1: "toStringInt 1700000000456 = ''1700000000456''"
    by (simp add: toStringInt_def digitChar_def digitsOf.simps)
  have e2: "sliceLast6 ''1700000000456'' = ''000456''" by (simp add: sliceLast6_def)
  have e3: "padStart3 (digitsOf 7) = ''007''"
    by (simp add: padStart3_def digitChar_def numeral_3_eq_3 digitsOf.simps)
  show ?thesis by (simp add: generateToken_def e1 e2 e3)
qed

lemma allocateSlot_eighteen: "allocateSlot ''A'' 17 = ''18''"
  by (simp add: allocateSlot_def digitChar_def digitsOf.simps)

lemma validateInput_demoDto1: "validateInput demoDto1 = None"
  by (simp add: validateInput_def demoDto1_def trim_def isSpace_def isDigit_def phoneRegex_def Let_def)

lemma validateInput_demoDto2: "validateInput demoDto2 = None"
  by (simp add: validateInput_def demoDto2_def trim_def isSpace_def isDigit_def phoneRegex_def Let_def)

lemma normalize_first_plate: "normalizeVehicleNumber ''KL07AB1234'' = ''KL07AB1234''"
  by (simp add: normalizeVehicleNumber_def trim_def toUpperCase_def toUpperChar_def isSpace_def)

lemma normalize_second_plate: "normalizeVehicleNumber ''KL01AB0001'' = ''KL01AB0001''"
  by (simp add: normalizeVehicleNumber_def trim_def toUpperCase_def toUpperChar_def isSpace_def)

lemma execute_first_entry: "execute 1700000000123 ParkingTask freshValets
   = (Inr (assigned 1700000000123 (mkValet ''a'' FREE 0 0)),
      [assigned 1700000000123 (mkValet ''a'' FREE 0 0), mkValet ''b'' FREE 0 0, mkValet ''c'' FREE 0 0])"
  by (simp add: freshValets_def execute_def findActive_def mkValet_def canBeAssigned_def
        statusCanBeAssigned_def isInShift_def selectValet_def assignTask_def update_def
        findById_def writeValet_def assigned_def getStatusAfterAssignment_def Let_def)

lemma execute_second_entry: "execute 1700000000456 ParkingTask
      [assigned 1700000000123 (mkValet ''a'' FREE 0 0), mkValet ''b'' FREE 0 0, mkValet ''c'' FREE 0 0]
   = (Inr (assigned 1700000000456 (mkValet ''b'' FREE 0 0)),
      [assigned 1700000000123 (mkValet ''a'' FREE 0 0), assigned 1700000000456 (mkValet ''b'' FREE 0 0),
       mkValet ''c'' FREE 0 0])"
  by (simp add: execute_def findActive_def mkValet_def canBeAssigned_def
        statusCanBeAssigned_def isInShift_def selectValet_def assignTask_def update_def
        findById_def writeValet_def assigned_def getStatusAfterAssignment_def Let_def)

lemma store_after_first_entry:
  "snd (createEntry demoEnv1 demoDto1 demoStore)
     = \<lparr> vehicles =
           [\<lparr> vehicleId = ''r1'', token = ''VLT-00012300'', vehicleNumber = ''KL07AB1234'',
              customerPhone = ''9876543210'', zone = ''A'', slot = ''18'', state = PARKING,
              customerType = None, arrivedAt = 1700000000123, parkedAt = None,
              markoutRequestedAt = None, scheduledAt = None, retrievalStartedAt = None,
              deliveredAt = None, closedAt = None, entryOperatorId = None,
              parkingValetId = Some ''a'', retrievalValetId = None,
              createdAt = 1700000000123, updatedAt = 1700000000123 \<rparr>],
         valets = [assigned 1700000000123 (mkValet ''a'' FREE 0 0), mkValet ''b'' FREE 0 0,
                   mkValet ''c'' FREE 0 0],
         zones = [mkZone ''z1'' ''A'' 2 1] \<rparr>"
proof -
  have ph: "normalizePhoneNumber ''9876543210'' = ''9876543210''"
    by (simp add: normalizePhoneNumber_def isDigit_def Let_def)
  have ida: "valetId (assigned 1700000000123 (mkValet ''a'' FREE 0 0)) = ''a''"
    by (simp add: assigned_def mkValet_def)
  show ?thesis
    using validateInput_demoDto1
    by (simp add: createEntry_def demoStore_def demoEnv1_def checkDuplicateEntry_def
        findActiveByVehicleNumber_def findAvailableZone_def mkZone_def execute_first_entry generateToken_first allocateSlot_eighteen normalize_first_plate ph
        ida createVehicle_def decrementAvailableSlots_def Let_def)
      (simp add: demoDto1_def ph normalize_first_plate)
qed

text \<open>
  C5 (as stated, refuted). The only record of plate KL07AB1234 is CLOSED, so the
  duplicate check passes, and the input is valid; the only zone has no free slot, and
  \<open>createEntry\<close> fails for want of a slot.
\<close>

theorem closed_record_full_zone:
  "checkDuplicateEntry (dtoVehicleNumber demoDto1) (vehicles fullStore) = None
   \<and> validateInput demoDto1 = None
   \<and> createEntry demoEnv2 demoDto1 fullStore = (Inl NoParkingSlotsAvailable, fullStore)"
proof -
  have d: "checkDuplicateEntry (dtoVehicleNumber demoDto1) (vehicles fullStore) = None"
    by (simp add: checkDuplicateEntry_def findActiveByVehicleNumber_def fullStore_def
        closedVehicle_def scheduledVehicle_def demoDto1_def normalize_first_plate Let_def)
  have z: "findAvailableZone (zones fullStore) = None"
    by (simp add: findAvailableZone_def fullStore_def mkZone_def)
  show ?thesis using d z validateInput_demoDto1 by (simp add: createEntry_def)
qed

text \<open>
  C5 (amended). For valid input: when a record of the normalized plate is in a state
  other than DELIVERED or CLOSED, \<open>createEntry\<close> fails with the duplicate-entry error
  and leaves the store as it was. When every record of the normalized plate is DELIVERED
  or CLOSED the duplicate check passes, and \<open>createEntry\<close> succeeds with a new PARKING
  record of that plate appended, provided that a zone has a free slot, the valet ids are
  distinct, a valet can be assigned, and the generated token is not taken.
\<close>

theorem createEntry_duplicate_check:
  "validateInput dto = None \<Longrightarrow>
     ((\<exists>v\<in>set (vehicles st).
          vehicleNumber v = normalizeVehicleNumber (dtoVehicleNumber dto)
          \<and> state v \<notin> {DELIVERED, CLOSED}) \<longrightarrow>
        (\<exists>tok s. createEntry env dto st
           = (Inl (DuplicateEntry (normalizeVehicleNumber (dtoVehicleNumber dto)) tok s), st)))
     \<and> ((\<forall>v\<in>set (vehicles st).
            vehicleNumber v = normalizeVehicleNumber (dtoVehicleNumber dto)
            \<longrightarrow> state v \<in> {DELIVERED, CLOSED}) \<longrightarrow>
          checkDuplicateEntry (dtoVehicleNumber dto) (vehicles st) = None
          \<and> (findAvailableZone (zones st) \<noteq> None
               \<and> distinct (map valetId (valets st))
               \<and> (\<exists>w\<in>set (valets st). canBeAssigned (clock env) w)
               \<and> generateToken (clock env) (tokenRandom env) \<notin> set (map token (vehicles st))
             \<longrightarrow> (\<exists>resp st'. createEntry env dto st = (Inr resp, st')
                    \<and> state (respVehicle resp) = PARKING
                    \<and> vehicleNumber (respVehicle resp)
                        = normalizeVehicleNumber (dtoVehicleNumber dto)
                    \<and> vehicles st' = vehicles st @ [respVehicle resp])))"
proof (intro conjI impI)
  assume v: "validateInput dto = None"
  {
    assume "\<exists>v\<in>set (vehicles st).
          vehicleNumber v = normalizeVehicleNumber (dtoVehicleNumber dto)
          \<and> state v \<notin> {DELIVERED, CLOSED}"
    then obtain x where "x \<in> set (vehicles st)"
      "vehicleNumber x = normalizeVehicleNumber (dtoVehicleNumber dto)"
      "state x \<notin> {DELIVERED, CLOSED}" by blast
    from checkDuplicateEntry_Some [OF this] obtain tok s where
      "checkDuplicateEntry (dtoVehicleNumber dto) (vehicles st)
         = Some (DuplicateEntry (normalizeVehicleNumber (dtoVehicleNumber dto)) tok s)" by blast
    from createEntry_duplicate [OF v this]
    show "\<exists>tok s. createEntry env dto st
           = (Inl (DuplicateEntry (normalizeVehicleNumber (dtoVehicleNumber dto)) tok s), st)"
      by blast
  }
  {
    assume a: "\<forall>v\<in>set (vehicles st).
            vehicleNumber v = normalizeVehicleNumber (dtoVehicleNumber dto)
            \<longrightarrow> state v \<in> {DELIVERED, CLOSED}"
    then show nd: "checkDuplicateEntry (dtoVehicleNumber dto) (vehicles st) = None"
      by (simp only: checkDuplicateEntry_None)
    assume r: "findAvailableZone (zones st) \<noteq> None
               \<and> distinct (map valetId (valets st))
               \<and> (\<exists>w\<in>set (valets st). canBeAssigned (clock env) w)
               \<and> generateToken (clock env) (tokenRandom env) \<notin> set (map token (vehicles st))"
    then obtain zn w where z: "findAvailableZone (zones st) = Some zn"
      and w: "w \<in> set (valets st)" "canBeAssigned (clock env) w" by blast
    from r have d: "distinct (map valetId (valets st))"
      and f: "generateToken (clock env) (tokenRandom env) \<notin> set (map token (vehicles st))"
      by blast+
    show "\<exists>resp st'. createEntry env dto st = (Inr resp, st')
            \<and> state (respVehicle resp) = PARKING
            \<and> vehicleNumber (respVehicle resp) = normalizeVehicleNumber (dtoVehicleNumber dto)
            \<and> vehicles st' = vehicles st @ [respVehicle resp]"
      by (rule createEntry_success [OF v nd z d w f])
  }
qed

theorem createEntry_duplicate_check_witness:
  "validateInput demoDto1Spaced = None
   \<and> (\<exists>tok s. createEntry demoEnv2 demoDto1Spaced (snd (createEntry demoEnv1 demoDto1 demoStore))
         = (Inl (DuplicateEntry ''KL07AB1234'' tok s), snd (createEntry demoEnv1 demoDto1 demoStore)))
   \<and> validateInput demoDto1 = None
   \<and> checkDuplicateEntry (dtoVehicleNumber demoDto1) (vehicles reopenedStore) = None
   \<and> (\<exists>resp st'. createEntry demoEnv2 demoDto1 reopenedStore = (Inr resp, st')
         \<and> state (respVehicle resp) = PARKING
         \<and> vehicleNumber (respVehicle resp) = ''KL07AB1234''
         \<and> vehicles st' = [closedVehicle, respVehicle resp])"
proof -
  have vs: "validateInput demoDto1Spaced = None"
    by (simp add: validateInput_def demoDto1Spaced_def demoDto1_def trim_def isSpace_def
        isDigit_def phoneRegex_def Let_def)
  have ns: "normalizeVehicleNumber (dtoVehicleNumber demoDto1Spaced) = ''KL07AB1234''"
    by (simp add: demoDto1Spaced_def demoDto1_def normalizeVehicleNumber_def trim_def
        toUpperCase_def toUpperChar_def isSpace_def)
  have n1: "normalizeVehicleNumber (dtoVehicleNumber demoDto1) = ''KL07AB1234''"
    by (simp add: demoDto1_def normalize_first_plate)
  have act: "\<exists>v\<in>set (vehicles (snd (createEntry demoEnv1 demoDto1 demoStore))).
               vehicleNumber v = normalizeVehicleNumber (dtoVehicleNumber demoDto1Spaced)
               \<and> state v \<notin> {DELIVERED, CLOSED}"
    by (simp add: store_after_first_entry ns)
  have cl: "\<forall>v\<in>set (vehicles reopenedStore).
              vehicleNumber v = normalizeVehicleNumber (dtoVehicleNumber demoDto1)
              \<longrightarrow> state v \<in> {DELIVERED, CLOSED}"
    by (simp add: reopenedStore_def closedVehicle_def)
  have z: "findAvailableZone (zones reopenedStore) \<noteq> None"
    by (simp add: findAvailableZone_def reopenedStore_def mkZone_def)
  have d: "distinct (map valetId (valets reopenedStore))"
    by (simp add: reopenedStore_def freshValets_def mkValet_def)
  have w: "\<exists>w\<in>set (valets reopenedStore). canBeAssigned (clock demoEnv2) w"
    by (simp add: reopenedStore_def freshValets_def mkValet_def canBeAssigned_def
        statusCanBeAssigned_def isInShift_def)
  have f: "generateToken (clock demoEnv2) (tokenRandom demoEnv2)
             \<notin> set (map token (vehicles reopenedStore))"
    by (simp add: demoEnv2_def generateToken_second reopenedStore_def closedVehicle_def scheduledVehicle_def)
  have v: "vehicles reopenedStore = [closedVehicle]" by (simp add: reopenedStore_def)
  show ?thesis
    using vs validateInput_demoDto1 act cl z d w f
      createEntry_duplicate_check [OF vs, of "snd (createEntry demoEnv1 demoDto1 demoStore)" demoEnv2]
      createEntry_duplicate_check [OF validateInput_demoDto1, of reopenedStore demoEnv2]
    by (simp add: ns n1 v)
qed

text \<open>
  C7 (as stated, refuted). At clock reading 1700000000123 and random draw 7 the token is
  \<open>VLT-\<close> followed by eight digits: the six last digits of the clock and the first
  two of the padded draw \<open>007\<close>; \<open>slice(0, 12)\<close> cuts the ninth.
\<close>

theorem generateToken_eight_digits:
  "generateToken 1700000000123 7 = ''VLT-00012300''
   \<and> length (drop 4 (generateToken 1700000000123 7)) = 8"
  by (simp add: generateToken_first)

text \<open>
  C7 (amended). For a clock reading of at least six digits (100000 ms or later), every
  token is \<open>VLT-\<close> followed by exactly 8 digits, 12 characters in all.
\<close>

theorem generateToken_format:
  "100000 \<le> now \<Longrightarrow>
     \<exists>ds. generateToken now r = ''VLT-'' @ ds \<and> length ds = 8 \<and> list_all isDigit ds"
  by (rule generateToken_shape)

theorem generateToken_format_witness:
  "(100000 :: int) \<le> 1700000000123
   \<and> (\<exists>ds. generateToken 1700000000123 7 = ''VLT-'' @ ds \<and> length ds = 8
          \<and> list_all isDigit ds)"
proof -
  have h: "(100000 :: int) \<le> 1700000000123" by simp
  show ?thesis using h generateToken_format [OF h, of 7] by simp
qed

text \<open>
  C8 (as stated, refuted). Two entries in a row, for two plates, with the same slot draw:
  both vehicles are PARKING in zone A, and both carry the slot label 18.
\<close>

theorem slot_label_reused:
  "slotLabels (snd (createEntry demoEnv2 demoDto2 (snd (createEntry demoEnv1 demoDto1 demoStore))))
     = [(''KL07AB1234'', ''A'', ''18'', PARKING), (''KL01AB0001'', ''A'', ''18'', PARKING)]"
proof -
  have ph: "normalizePhoneNumber ''9876543211'' = ''9876543211''"
    by (simp add: normalizePhoneNumber_def isDigit_def Let_def)
  have idb: "valetId (assigned 1700000000456 (mkValet ''b'' FREE 0 0)) = ''b''"
    by (simp add: assigned_def mkValet_def)
  show ?thesis
    unfolding store_after_first_entry using validateInput_demoDto2
    by (simp add: createEntry_def demoEnv2_def checkDuplicateEntry_def
        findActiveByVehicleNumber_def findAvailableZone_def mkZone_def execute_second_entry generateToken_second allocateSlot_eighteen normalize_second_plate
        idb createVehicle_def decrementAvailableSlots_def slotLabels_def Let_def)
      (simp add: demoDto2_def normalize_second_plate)
qed

text \<open>
  C8 (amended). The slot label of a created entry is the decimal notation of the slot
  draw plus one, whatever the zone and whatever labels the vehicles of the store carry;
  the created row is in the store's vehicles.
\<close>

theorem createEntry_slot_label:
  "createEntry env dto st = (Inr resp, st') \<Longrightarrow>
     respSlot resp = digitsOf (slotRandom env + 1)
     \<and> slot (respVehicle resp) = digitsOf (slotRandom env + 1)
     \<and> respVehicle resp \<in> set (vehicles st')"
  by (rule createEntry_slot)

theorem createEntry_slot_label_witness:
  "\<exists>resp st'. createEntry demoEnv1 demoDto1 demoStore = (Inr resp, st')
      \<and> respSlot resp = ''18'' \<and> slot (respVehicle resp) = ''18''
      \<and> respVehicle resp \<in> set (vehicles st')"
proof -
  have nd: "checkDuplicateEntry (dtoVehicleNumber demoDto1) (vehicles demoStore) = None"
    by (simp add: checkDuplicateEntry_def findActiveByVehicleNumber_def demoStore_def Let_def)
  have z: "findAvailableZone (zones demoStore) = Some (mkZone ''z1'' ''A'' 2 2)"
    by (simp add: findAvailableZone_def demoStore_def mkZone_def)
  have d: "distinct (map valetId (valets demoStore))"
    by (simp add: demoStore_def freshValets_def mkValet_def)
  have w: "mkValet ''a'' FREE 0 0 \<in> set (valets demoStore)"
    "canBeAssigned (clock demoEnv1) (mkValet ''a'' FREE 0 0)"
    by (simp_all add: demoStore_def freshValets_def mkValet_def canBeAssigned_def
        statusCanBeAssigned_def isInShift_def)
  have f: "generateToken (clock demoEnv1) (tokenRandom demoEnv1)
             \<notin> set (map token (vehicles demoStore))"
    by (simp add: demoStore_def)
  from createEntry_success [OF validateInput_demoDto1 nd z d w f]
  obtain resp st' where r: "createEntry demoEnv1 demoDto1 demoStore = (Inr resp, st')"
    by blast
  have s: "digitsOf (slotRandom demoEnv1 + 1) = ''18''"
    using allocateSlot_eighteen by (simp add: demoEnv1_def allocateSlot_def)
  from createEntry_slot_label [OF r] r s show ?thesis by simp
qed

text \<open>
  What \<open>validateInput\<close> accepts: a plate and a phone that are not blank, a phone
  whose digits, all of them, are ten with a first digit from 6 to 9, and an operator id.
\<close>

lemma validateInput_accepts_iff:
  "validateInput dto = None \<longleftrightarrow>
     trim (dtoVehicleNumber dto) \<noteq> [] \<and> trim (dtoCustomerPhone dto) \<noteq> []
     \<and> phoneRegex (filter isDigit (dtoCustomerPhone dto)) \<and> dtoEntryOperatorId dto \<noteq> []"
  by (auto simp: validateInput_def Let_def trim_def)

text \<open>
  C9 (the code at the failing input). With a valid plate and operator, the phone
  \<open>+919876543210\<close> is rejected as an invalid phone number, and so is
  \<open>919876543210\<close>; the same number without the prefix is accepted.
  \<open>normalizePhoneNumber\<close>, which runs after the validation, would remove the prefix.
\<close>

theorem validateInput_country_code:
  "validateInput \<lparr> dtoVehicleNumber = ''KL07AB1234'', dtoCustomerPhone = ''+919876543210'',
                    dtoCustomerType = None, dtoEntryOperatorId = ''op-1'' \<rparr>
     = Some InvalidPhoneNumber
   \<and> validateInput \<lparr> dtoVehicleNumber = ''KL07AB1234'', dtoCustomerPhone = ''919876543210'',
                    dtoCustomerType = None, dtoEntryOperatorId = ''op-1'' \<rparr>
     = Some InvalidPhoneNumber
   \<and> validateInput \<lparr> dtoVehicleNumber = ''KL07AB1234'', dtoCustomerPhone = ''9876543210'',
                    dtoCustomerType = None, dtoEntryOperatorId = ''op-1'' \<rparr>
     = None
   \<and> normalizePhoneNumber ''+919876543210'' = ''9876543210''"
  by (simp add: validateInput_def trim_def isSpace_def isDigit_def phoneRegex_def
      normalizePhoneNumber_def Let_def)

end
